theory Spec2Isabelle
  imports Complex_Main "HOL-Library.Word" "HOL-Library.Signed_Division"
begin

section \<open>Names\<close>

text \<open>
  An \<open>ndn::Name\<close> is an ordered sequence of components; a component is an opaque
  byte string. Equality is component-wise.
\<close>

type_synonym component = string
type_synonym name = "component list"

section \<open>Load-aware cost calculator (route/load-aware-routing-calculator.cpp)\<close>

subsection \<open>Constants and data\<close>

definition DEFAULT_RTT_WEIGHT :: real where "DEFAULT_RTT_WEIGHT = 0.3"
definition DEFAULT_LOAD_WEIGHT :: real where "DEFAULT_LOAD_WEIGHT = 0.4"
definition DEFAULT_STABILITY_WEIGHT :: real where "DEFAULT_STABILITY_WEIGHT = 0.3"
definition RTT_THRESHOLD_EXCELLENT :: real where "RTT_THRESHOLD_EXCELLENT = 10.0"
definition RTT_THRESHOLD_GOOD :: real where "RTT_THRESHOLD_GOOD = 50.0"
definition RTT_THRESHOLD_FAIR :: real where "RTT_THRESHOLD_FAIR = 100.0"
definition RTT_THRESHOLD_POOR :: real where "RTT_THRESHOLD_POOR = 200.0"

text \<open>
  \<open>double\<close> is modelled as \<open>real\<close>: the arithmetic is the exact one, without rounding,
  infinities or NaN.

  \<open>LinkCostManager::LinkMetrics\<close> is declared in a header that is not part of the
  sources at hand; its fields are the ones the calculator reads. A duration and a time
  point are integer tick counts, as in \<open>std::chrono\<close>. The tick lengths and the bound
  \<open>MAX_RTT_HISTORY\<close> come from the missing headers and are parameters of the model:
  \<open>rttTicksPerMs\<close> ticks of \<open>currentRtt\<close> make one millisecond, \<open>clockTicksPerSec\<close>
  ticks of the steady clock make one second.
\<close>

record LinkMetrics =
  neighbor :: name
  originalCost :: real
  currentRtt :: "int option"
  timeoutCount :: "nat option"
  lastSuccessTime :: "int option"

record Params =
  MAX_RTT_HISTORY :: nat
  rttTicksPerMs :: int
  clockTicksPerSec :: int

text \<open>
  The members of \<open>LoadAwareRoutingCalculator\<close> that the cost function reads or writes.
  \<open>m_rttHistory\<close> maps a neighbour to its deque of samples; a key that was never
  written is absent.
\<close>

record Calculator =
  m_rttWeight :: real
  m_loadWeight :: real
  m_stabilityWeight :: real
  m_rttHistory :: "name \<rightharpoonup> real list"
  m_costAdjustmentCount :: nat

text \<open>
  \<open>duration_cast\<close> to a coarser unit divides the tick count and truncates towards
  zero (C++ integer division); \<open>.count()\<close> reads the resulting integer.
\<close>

definition duration_cast_count :: "int \<Rightarrow> int \<Rightarrow> int" where
  "duration_cast_count ticksPerUnit d = d sdiv ticksPerUnit"

subsection \<open>updateRttHistory\<close>

text \<open>The loop \<open>while (history.size() > MAX_RTT_HISTORY) history.pop_front();\<close>\<close>

function updateRttHistory_loop :: "nat \<Rightarrow> real list \<Rightarrow> real list" where
  "updateRttHistory_loop maxh history =
     (if length history > maxh then updateRttHistory_loop maxh (tl history) else history)"
  by pat_completeness auto
termination
  by (relation "measure (\<lambda>(maxh, history). length history)") auto

declare updateRttHistory_loop.simps [simp del]

text \<open>\<open>m_rttHistory[neighbor]\<close> creates an empty deque for a key that is absent.\<close>

definition updateRttHistory :: "Params \<Rightarrow> name \<Rightarrow> real \<Rightarrow> Calculator \<Rightarrow> Calculator" where
  "updateRttHistory P nb currentRttMs c =
     (let history = (case m_rttHistory c nb of None \<Rightarrow> [] | Some h \<Rightarrow> h);
          history = history @ [currentRttMs];
          history = updateRttHistory_loop (MAX_RTT_HISTORY P) history
      in c\<lparr>m_rttHistory := (m_rttHistory c)(nb \<mapsto> history)\<rparr>)"

subsection \<open>The three factors\<close>

definition getRttFactor :: "Params \<Rightarrow> LinkMetrics \<Rightarrow> real" where
  "getRttFactor P metrics =
     (case currentRtt metrics of
        None \<Rightarrow> 0.0
      | Some d \<Rightarrow>
          let rttMsValue = duration_cast_count (rttTicksPerMs P) d in
          if real_of_int rttMsValue \<le> RTT_THRESHOLD_EXCELLENT then 0.0
          else if real_of_int rttMsValue \<le> RTT_THRESHOLD_GOOD then 0.2
          else if real_of_int rttMsValue \<le> RTT_THRESHOLD_FAIR then 0.5
          else if real_of_int rttMsValue \<le> RTT_THRESHOLD_POOR then 1.0
          else 2.0)"

definition variationFactor :: "real list \<Rightarrow> real" where
  "variationFactor history =
     (let sum = foldl (\<lambda>sum rtt. sum + rtt) 0.0 history;
          mean = sum / real (length history);
          variance = foldl (\<lambda>variance rtt. variance + (rtt - mean) * (rtt - mean)) 0.0 history;
          stddev = sqrt (variance / real (length history));
          variationRate = (if mean > 0 then stddev / mean else 0.0)
      in if variationRate \<le> 0.1 then 0.0
         else if variationRate \<le> 0.2 then 0.3
         else if variationRate \<le> 0.5 then 0.7
         else 1.5)"

definition getLoadFactor :: "Params \<Rightarrow> LinkMetrics \<Rightarrow> Calculator \<Rightarrow> real \<times> Calculator" where
  "getLoadFactor P metrics c0 =
     (let c = (case currentRtt metrics of
                 None \<Rightarrow> c0
               | Some d \<Rightarrow>
                   let rttMs = duration_cast_count (rttTicksPerMs P) d
                   in updateRttHistory P (neighbor metrics) (real_of_int rttMs) c0)
      in case m_rttHistory c (neighbor metrics) of
           None \<Rightarrow> (0.0, c)
         | Some history \<Rightarrow>
             if length history < 3 then (0.0, c) else (variationFactor history, c))"

text \<open>\<open>now\<close> is the value \<open>steady_clock::now()\<close> returns, in clock ticks.\<close>

definition getStabilityFactor :: "Params \<Rightarrow> int \<Rightarrow> LinkMetrics \<Rightarrow> real" where
  "getStabilityFactor P now metrics =
     (let factor = 0.0;
          factor = (case timeoutCount metrics of
                      None \<Rightarrow> factor
                    | Some t \<Rightarrow> factor + real t * 0.2)
      in case lastSuccessTime metrics of
           None \<Rightarrow> factor
         | Some t \<Rightarrow>
             let timeSinceSuccess = now - t;
                 secondsSinceSuccess = duration_cast_count (clockTicksPerSec P) timeSinceSuccess
             in if secondsSinceSuccess > 60
                then factor + min 2.0 (real_of_int secondsSinceSuccess / 60.0 * 0.1)
                else factor)"

subsection \<open>calculateLoadAwareCost\<close>

definition calculateLoadAwareCost ::
  "Params \<Rightarrow> int \<Rightarrow> name \<Rightarrow> real \<Rightarrow> LinkMetrics \<Rightarrow> Calculator \<Rightarrow> real \<times> Calculator" where
  "calculateLoadAwareCost P now nb rttBasedCost metrics c0 =
     (if rttBasedCost \<le> 0 \<or> originalCost metrics \<le> 0 then (rttBasedCost, c0)
      else
        let rttFactor = getRttFactor P metrics;
            (loadFactor, c1) = getLoadFactor P metrics c0;
            stabilityFactor = getStabilityFactor P now metrics;
            adjustmentFactor = m_rttWeight c1 * rttFactor
                             + m_loadWeight c1 * loadFactor
                             + m_stabilityWeight c1 * stabilityFactor;
            adjustedCost = rttBasedCost * (1.0 + adjustmentFactor);
            adjustedCost = min adjustedCost (originalCost metrics * 3.0);
            adjustedCost = max adjustedCost (originalCost metrics * 0.5);
            c2 = (case currentRtt metrics of
                    None \<Rightarrow> c1
                  | Some d \<Rightarrow>
                      let rttMs = duration_cast_count (rttTicksPerMs P) d
                      in updateRttHistory P nb (real_of_int rttMs) c1)
        in (adjustedCost, c2\<lparr>m_costAdjustmentCount := m_costAdjustmentCount c2 + 1\<rparr>))"

text \<open>The calculator as its constructor leaves it: default weights, no history.\<close>

definition initialCalculator :: Calculator where
  "initialCalculator =
     \<lparr>m_rttWeight = DEFAULT_RTT_WEIGHT, m_loadWeight = DEFAULT_LOAD_WEIGHT,
      m_stabilityWeight = DEFAULT_STABILITY_WEIGHT, m_rttHistory = Map.empty,
      m_costAdjustmentCount = 0\<rparr>"

section \<open>Hello protocol (hello-protocol.cpp)\<close>

subsection \<open>Name operations\<close>

text \<open>
  The operations of \<open>ndn::Name\<close> the handlers call. \<open>get(-k)\<close> indexes from the end
  and does no range check: outside the name the read is undefined behaviour, here
  \<open>None\<close>. \<open>getPrefix(-k)\<close> is \<open>getSubName(0, size() + (-k))\<close> with the count
  computed in \<open>size_t\<close>: for \<open>k > size()\<close> it wraps to a count that exceeds the name,
  and the whole name is returned.
\<close>

definition get_neg :: "name \<Rightarrow> nat \<Rightarrow> component option" where
  "get_neg n k = (if 1 \<le> k \<and> k \<le> length n then Some (n ! (length n - k)) else None)"

definition getPrefix_neg :: "name \<Rightarrow> nat \<Rightarrow> name" where
  "getPrefix_neg n k = (if k \<le> length n then take (length n - k) n else n)"

text \<open>
  Modelled from the spec: the constant \<open>NLSR_COMPONENT\<close> of hello-protocol.hpp, which
  the spec gives as the literal byte string \<open>NLSR\<close>.
\<close>

definition NLSR_COMPONENT :: component where "NLSR_COMPONENT = ''NLSR''"

text \<open>
  Modelled from the spec: the constant \<open>INFO_COMPONENT\<close> of hello-protocol.hpp, which
  the spec gives as the literal byte string \<open>INFO\<close>.
\<close>

definition INFO_COMPONENT :: component where "INFO_COMPONENT = ''INFO''"

subsection \<open>Adjacency list\<close>

text \<open>
  Modelled from the spec: \<open>Adjacent\<close> and \<open>AdjacencyList\<close> (adjacent.hpp,
  adjacency-list.cpp), which are not among the sources at hand. A record per configured
  neighbour with name, face id, status in \<open>{ACTIVE, INACTIVE}\<close> and a non-negative
  timeout count; lookup by exact name equality; \<open>status_of\<close> defaults to \<open>INACTIVE\<close>
  for an unknown name; the list is populated from configuration and nothing is added or
  removed at run time, so a mutation of an unknown name changes nothing. The spec does
  not say what the timeout count of an unknown name reads as: that value is the
  parameter \<open>unknownCount\<close>.
\<close>

text \<open>Modelled from the spec: the two values of \<open>Adjacent::Status\<close>.\<close>

datatype Status = STATUS_INACTIVE | STATUS_ACTIVE

text \<open>
  Modelled from the spec: the enumerators as integers, for the subtraction in
  \<open>onContentValidated\<close>; all that matters is that the two values differ.
\<close>

fun Status_int :: "Status \<Rightarrow> int" where
  "Status_int STATUS_INACTIVE = 0"
| "Status_int STATUS_ACTIVE = 1"

text \<open>Modelled from the spec: the adjacency record of one configured neighbour.\<close>

record Adjacent =
  adjName :: name
  faceId :: nat
  status :: Status
  interestTimedOutNo :: nat

type_synonym AdjacencyList = "Adjacent list"

text \<open>Modelled from the spec: \<open>find(name)\<close>, the first record with that name.\<close>

fun findAdjacent :: "AdjacencyList \<Rightarrow> name \<Rightarrow> Adjacent option" where
  "findAdjacent [] n = None"
| "findAdjacent (a # as) n = (if adjName a = n then Some a else findAdjacent as n)"

text \<open>Modelled from the spec: a mutation applies to the record that \<open>find\<close> returns.\<close>

fun updateAdjacent :: "(Adjacent \<Rightarrow> Adjacent) \<Rightarrow> AdjacencyList \<Rightarrow> name \<Rightarrow> AdjacencyList" where
  "updateAdjacent f [] n = []"
| "updateAdjacent f (a # as) n =
     (if adjName a = n then f a # as else a # updateAdjacent f as n)"

text \<open>Modelled from the spec: \<open>is_neighbor(name)\<close>.\<close>

definition isNeighbor :: "AdjacencyList \<Rightarrow> name \<Rightarrow> bool" where
  "isNeighbor adl n = (findAdjacent adl n \<noteq> None)"

text \<open>Modelled from the spec: \<open>status_of(name)\<close>, \<open>INACTIVE\<close> for an unknown name.\<close>

definition getStatusOfNeighbor :: "AdjacencyList \<Rightarrow> name \<Rightarrow> Status" where
  "getStatusOfNeighbor adl n =
     (case findAdjacent adl n of None \<Rightarrow> STATUS_INACTIVE | Some a \<Rightarrow> status a)"

text \<open>Modelled from the spec: \<open>set_status(name, Status)\<close>.\<close>

definition setStatusOfNeighbor :: "AdjacencyList \<Rightarrow> name \<Rightarrow> Status \<Rightarrow> AdjacencyList" where
  "setStatusOfNeighbor adl n st = updateAdjacent (\<lambda>a. a\<lparr>status := st\<rparr>) adl n"

text \<open>Modelled from the spec: the read of \<open>timed_out_count\<close>.\<close>

definition getTimedOutInterestCount :: "nat \<Rightarrow> AdjacencyList \<Rightarrow> name \<Rightarrow> nat" where
  "getTimedOutInterestCount unknownCount adl n =
     (case findAdjacent adl n of None \<Rightarrow> unknownCount | Some a \<Rightarrow> interestTimedOutNo a)"

text \<open>Modelled from the spec: \<open>set_timeouts(name, n)\<close>.\<close>

definition setTimedOutInterestCount :: "AdjacencyList \<Rightarrow> name \<Rightarrow> nat \<Rightarrow> AdjacencyList" where
  "setTimedOutInterestCount adl n k = updateAdjacent (\<lambda>a. a\<lparr>interestTimedOutNo := k\<rparr>) adl n"

text \<open>Modelled from the spec: \<open>increment_timeouts(name)\<close>.\<close>

definition incrementTimedOutInterestCount :: "AdjacencyList \<Rightarrow> name \<Rightarrow> AdjacencyList" where
  "incrementTimedOutInterestCount adl n =
     updateAdjacent (\<lambda>a. a\<lparr>interestTimedOutNo := interestTimedOutNo a + 1\<rparr>) adl n"

subsection \<open>Configuration, effects and state\<close>

text \<open>Modelled from the spec: \<open>hyperbolic_state\<close> is \<open>ON\<close> or \<open>OFF\<close>.\<close>

datatype HyperbolicState = HYPERBOLIC_STATE_OFF | HYPERBOLIC_STATE_ON

text \<open>
  What the handlers read from \<open>m_confParam\<close> and from the libraries.
  \<open>routerPrefixWire\<close> is \<open>getRouterPrefix().wireEncode()\<close> as a name component;
  \<open>blockFromValue\<close> decodes such a component back into a name and is \<open>None\<close> where
  the decoder throws. The three numbers are \<open>uint32_t\<close>.
\<close>

record HelloEnv =
  routerPrefixWire :: component
  blockFromValue :: "component \<Rightarrow> name option"
  interestResendTime :: "32 word"
  infoInterestInterval :: "32 word"
  interestRetryNumber :: "32 word"
  hyperbolicState :: HyperbolicState
  unknownCount :: nat

datatype PacketType =
  SENT_HELLO_INTEREST | RCV_HELLO_INTEREST | SENT_HELLO_DATA | RCV_HELLO_DATA

text \<open>
  Everything a handler does to the outside, in the order it does it: the signals it
  emits, the packets it hands to the face (an Interest with its name and lifetime in
  seconds, a Data with its name) and the two reconvergence calls.
\<close>

datatype effect =
    OnInterestSent name
  | OnDataReceived name
  | OnTimeout name "32 word"
  | OnNeighborStatusChanged name Status
  | OnInitialHelloDataValidated name
  | HpIncrementSignal PacketType
  | FaceExpressInterest name "32 word"
  | FacePut name
  | ScheduleRoutingTableCalculation
  | ScheduleAdjLsaBuild

datatype task = CallSendHelloInterest name | CallProcessInterestTimedOut name

text \<open>
  \<open>clock\<close> is the scheduler's time in seconds when the handler runs; \<open>m_scheduler\<close>
  holds the scheduled tasks with the time each is due.
\<close>

record HelloState =
  m_adjacencyList :: AdjacencyList
  clock :: nat
  m_scheduler :: "(nat \<times> task) list"
  effects :: "effect list"

datatype error = UndefinedBehaviour | TlvError

definition emit :: "effect \<Rightarrow> HelloState \<Rightarrow> HelloState" where
  "emit e s = s\<lparr>effects := effects s @ [e]\<rparr>"

definition schedule :: "nat \<Rightarrow> task \<Rightarrow> HelloState \<Rightarrow> HelloState" where
  "schedule delay t s = s\<lparr>m_scheduler := m_scheduler s @ [(clock s + delay, t)]\<rparr>"

subsection \<open>The handlers\<close>

definition expressInterest :: "name \<Rightarrow> 32 word \<Rightarrow> HelloState \<Rightarrow> HelloState" where
  "expressInterest interestName seconds s =
     (let nbr = getPrefix_neg interestName 3;
          s = emit (OnInterestSent nbr) s;
          s = emit (FaceExpressInterest interestName seconds) s
      in emit (HpIncrementSignal SENT_HELLO_INTEREST) s)"

text \<open>The Nack callback that \<open>expressInterest\<close> registers with the face.\<close>

definition onNack :: "name \<Rightarrow> 32 word \<Rightarrow> HelloState \<Rightarrow> HelloState" where
  "onNack interestName seconds s =
     schedule (unat (2 * seconds)) (CallProcessInterestTimedOut interestName) s"

definition sendHelloInterest :: "HelloEnv \<Rightarrow> name \<Rightarrow> HelloState \<Rightarrow> HelloState" where
  "sendHelloInterest env nbr s =
     (case findAdjacent (m_adjacencyList s) nbr of
        None \<Rightarrow> s
      | Some adjacent \<Rightarrow>
          let s = (if faceId adjacent \<noteq> 0
                   then let interestName =
                              adjName adjacent @ [NLSR_COMPONENT, INFO_COMPONENT, routerPrefixWire env]
                        in expressInterest interestName (interestResendTime env) s
                   else s)
          in schedule (unat (infoInterestInterval env)) (CallSendHelloInterest nbr) s)"

definition reconverge :: "HelloEnv \<Rightarrow> HelloState \<Rightarrow> HelloState" where
  "reconverge env s =
     (if hyperbolicState env = HYPERBOLIC_STATE_ON
      then emit ScheduleRoutingTableCalculation s
      else emit ScheduleAdjLsaBuild s)"

text \<open>\<open>version\<close> is the component \<open>appendVersion()\<close> adds; signing is not modelled.\<close>

definition processInterest ::
  "HelloEnv \<Rightarrow> name \<Rightarrow> component \<Rightarrow> HelloState \<Rightarrow> error + HelloState" where
  "processInterest env interestName version s =
     (let s = emit (HpIncrementSignal RCV_HELLO_INTEREST) s in
      case get_neg interestName 2 of
        None \<Rightarrow> Inl UndefinedBehaviour
      | Some info \<Rightarrow>
          if info \<noteq> INFO_COMPONENT then Inr s
          else
            case get_neg interestName 1 of
              None \<Rightarrow> Inl UndefinedBehaviour
            | Some lastc \<Rightarrow>
                case blockFromValue env lastc of
                  None \<Rightarrow> Inl TlvError
                | Some nbr \<Rightarrow>
                    if isNeighbor (m_adjacencyList s) nbr then
                      let s = emit (FacePut (interestName @ [version])) s;
                          s = emit (HpIncrementSignal SENT_HELLO_DATA) s
                      in case findAdjacent (m_adjacencyList s) nbr of
                           None \<Rightarrow> Inl UndefinedBehaviour
                         | Some adjacent \<Rightarrow>
                             if status adjacent = STATUS_INACTIVE then
                               if faceId adjacent \<noteq> 0 then
                                 let interestName =
                                       nbr @ [NLSR_COMPONENT, INFO_COMPONENT, routerPrefixWire env]
                                 in Inr (expressInterest interestName (interestResendTime env) s)
                               else Inr s
                             else Inr s
                    else Inr s)"

definition processInterestTimedOut ::
  "HelloEnv \<Rightarrow> name \<Rightarrow> HelloState \<Rightarrow> error + HelloState" where
  "processInterestTimedOut env interestName s =
     (case get_neg interestName 2 of
        None \<Rightarrow> Inl UndefinedBehaviour
      | Some info \<Rightarrow>
          if info \<noteq> INFO_COMPONENT then Inr s
          else
            let nbr = getPrefix_neg interestName 3;
                s = s\<lparr>m_adjacencyList :=
                        incrementTimedOutInterestCount (m_adjacencyList s) nbr\<rparr>;
                status = getStatusOfNeighbor (m_adjacencyList s) nbr;
                infoIntTimedOutCount =
                  (word_of_nat (getTimedOutInterestCount (unknownCount env)
                                  (m_adjacencyList s) nbr) :: 32 word);
                s = emit (OnTimeout nbr infoIntTimedOutCount) s
            in if infoIntTimedOutCount < interestRetryNumber env then
                 let interestName =
                       nbr @ [NLSR_COMPONENT, INFO_COMPONENT, routerPrefixWire env]
                 in Inr (expressInterest interestName (interestResendTime env) s)
               else if status = STATUS_ACTIVE then
                 let s = s\<lparr>m_adjacencyList :=
                             setStatusOfNeighbor (m_adjacencyList s) nbr STATUS_INACTIVE\<rparr>;
                     s = emit (OnNeighborStatusChanged nbr STATUS_INACTIVE) s
                 in Inr (reconverge env s)
               else Inr s)"

definition onContentValidated ::
  "HelloEnv \<Rightarrow> name \<Rightarrow> HelloState \<Rightarrow> error + HelloState" where
  "onContentValidated env dataName s =
     (case get_neg dataName 3 of
        None \<Rightarrow> Inl UndefinedBehaviour
      | Some info \<Rightarrow>
          let s =
            (if info = INFO_COMPONENT then
               let nbr = getPrefix_neg dataName 4;
                   oldStatus = getStatusOfNeighbor (m_adjacencyList s) nbr;
                   s = s\<lparr>m_adjacencyList :=
                           setStatusOfNeighbor (m_adjacencyList s) nbr STATUS_ACTIVE\<rparr>;
                   s = s\<lparr>m_adjacencyList :=
                           setTimedOutInterestCount (m_adjacencyList s) nbr 0\<rparr>;
                   newStatus = getStatusOfNeighbor (m_adjacencyList s) nbr;
                   s = emit (OnDataReceived nbr) s
               in if Status_int oldStatus - Status_int newStatus \<noteq> 0 then
                    let s = (if newStatus = STATUS_ACTIVE
                             then emit (OnNeighborStatusChanged nbr STATUS_ACTIVE) s
                             else s);
                        s = reconverge env s
                    in emit (OnInitialHelloDataValidated nbr) s
                  else s
             else s)
          in Inr (emit (HpIncrementSignal RCV_HELLO_DATA) s))"

definition onContentValidationFailed :: "name \<Rightarrow> HelloState \<Rightarrow> HelloState" where
  "onContentValidationFailed dataName s = s"

subsection \<open>Executions\<close>

text \<open>
  The callbacks run one at a time on a single executor. An execution is a sequence of
  callback invocations, in any order and with any arguments, with the clock advancing
  in between; it ends at the first invocation whose behaviour is undefined or that
  throws.
\<close>

datatype input =
    SendHelloInterest name
  | ProcessInterest name component
  | ProcessInterestTimedOut name
  | Nack name "32 word"
  | ContentValidated name
  | ContentValidationFailed name
  | Advance nat

fun step :: "HelloEnv \<Rightarrow> input \<Rightarrow> HelloState \<Rightarrow> error + HelloState" where
  "step env (SendHelloInterest n) s = Inr (sendHelloInterest env n s)"
| "step env (ProcessInterest n v) s = processInterest env n v s"
| "step env (ProcessInterestTimedOut n) s = processInterestTimedOut env n s"
| "step env (Nack n seconds) s = Inr (onNack n seconds s)"
| "step env (ContentValidated n) s = onContentValidated env n s"
| "step env (ContentValidationFailed n) s = Inr (onContentValidationFailed n s)"
| "step env (Advance d) s = Inr (s\<lparr>clock := clock s + d\<rparr>)"

fun run :: "HelloEnv \<Rightarrow> input list \<Rightarrow> HelloState \<Rightarrow> error + HelloState" where
  "run env [] s = Inr s"
| "run env (i # is) s =
     (case step env i s of Inl e \<Rightarrow> Inl e | Inr s' \<Rightarrow> run env is s')"

text \<open>What a handler added to the effects of the state it started from.\<close>

definition newEffects :: "HelloState \<Rightarrow> HelloState \<Rightarrow> effect list" where
  "newEffects s s' = drop (length (effects s)) (effects s')"

text \<open>The statuses that the \<open>NeighborStatusChanged\<close> events report for one neighbour.\<close>

fun statusChanges :: "name \<Rightarrow> effect list \<Rightarrow> Status list" where
  "statusChanges nb [] = []"
| "statusChanges nb (OnNeighborStatusChanged n st # es) =
     (if n = nb then st # statusChanges nb es else statusChanges nb es)"
| "statusChanges nb (e # es) = statusChanges nb es"

fun alternates :: "Status list \<Rightarrow> bool" where
  "alternates (a # b # xs) = (a \<noteq> b \<and> alternates (b # xs))"
| "alternates xs = True"

fun isReconvergence :: "effect \<Rightarrow> bool" where
  "isReconvergence ScheduleRoutingTableCalculation = True"
| "isReconvergence ScheduleAdjLsaBuild = True"
| "isReconvergence e = False"

fun isStatusChange :: "effect \<Rightarrow> bool" where
  "isStatusChange (OnNeighborStatusChanged n st) = True"
| "isStatusChange e = False"

fun isSignal :: "effect \<Rightarrow> bool" where
  "isSignal (OnInterestSent n) = True"
| "isSignal (OnDataReceived n) = True"
| "isSignal (OnTimeout n k) = True"
| "isSignal (OnNeighborStatusChanged n st) = True"
| "isSignal (OnInitialHelloDataValidated n) = True"
| "isSignal e = False"

fun isProbe :: "effect \<Rightarrow> bool" where
  "isProbe (FaceExpressInterest n seconds) = True"
| "isProbe e = False"

section \<open>Auxiliary notions for the proofs\<close>

text \<open>The history of a neighbour, empty when the map has no entry.\<close>

definition historyOf :: "Calculator \<Rightarrow> name \<Rightarrow> real list" where
  "historyOf c nb = (case m_rttHistory c nb of None \<Rightarrow> [] | Some h \<Rightarrow> h)"

text \<open>
  One handler invocation either emits no status change for \<open>nb\<close> and leaves its status,
  or emits exactly one, which reports the new status, different from the old one.
\<close>

definition statusStep :: "name \<Rightarrow> HelloState \<Rightarrow> HelloState \<Rightarrow> bool" where
  "statusStep nb s s' \<longleftrightarrow>
     take (length (effects s)) (effects s') = effects s
     \<and> length (effects s) \<le> length (effects s')
     \<and> (let E = newEffects s s';
             old = getStatusOfNeighbor (m_adjacencyList s) nb;
             new = getStatusOfNeighbor (m_adjacencyList s') nb
         in (statusChanges nb E = [] \<and> new = old) \<or> (statusChanges nb E = [new] \<and> new \<noteq> old))"

section \<open>Concrete inputs\<close>

text \<open>
  A parameter set with nanosecond ticks and the bound 16, and a router \<open>/site/r1\<close>
  with its metrics, used to run the definitions on concrete values.
\<close>

definition Pns :: Params where
  "Pns = \<lparr>MAX_RTT_HISTORY = 16, rttTicksPerMs = 1000000, clockTicksPerSec = 1000000000\<rparr>"

definition metricsNoRtt :: LinkMetrics where
  "metricsNoRtt = \<lparr>neighbor = [''site'', ''r1''], originalCost = 100, currentRtt = None,
                    timeoutCount = Some 0, lastSuccessTime = Some 0\<rparr>"

definition metricsRtt :: "int \<Rightarrow> LinkMetrics" where
  "metricsRtt d = \<lparr>neighbor = [''site'', ''r1''], originalCost = 100, currentRtt = Some d,
                    timeoutCount = Some 0, lastSuccessTime = Some 0\<rparr>"

definition calcTwoSamples :: Calculator where
  "calcTwoSamples = initialCalculator\<lparr>m_rttHistory := Map.empty([''site'', ''r1''] \<mapsto> [10, 1000])\<rparr>"

text \<open>
  A hello engine on router \<open>/site/r0\<close> with retry limit 3, probe lifetime 15 s and
  probe interval 60 s, and one configured neighbour \<open>/site/r1\<close>.
\<close>

definition env0 :: HelloEnv where
  "env0 = \<lparr>routerPrefixWire = ''wire:/site/r0'',
            blockFromValue = (\<lambda>c. if c = ''wire:/site/r1'' then Some [''site'', ''r1''] else None),
            interestResendTime = 15, infoInterestInterval = 60, interestRetryNumber = 3,
            hyperbolicState = HYPERBOLIC_STATE_OFF, unknownCount = 0\<rparr>"

definition adj1 :: "nat \<Rightarrow> Status \<Rightarrow> Adjacent" where
  "adj1 fid st = \<lparr>adjName = [''site'', ''r1''], faceId = fid, status = st, interestTimedOutNo = 0\<rparr>"

definition state0 :: "nat \<Rightarrow> Status \<Rightarrow> HelloState" where
  "state0 fid st = \<lparr>m_adjacencyList = [adj1 fid st], clock = 0, m_scheduler = [], effects = []\<rparr>"

text \<open>The neighbour after two timeouts: \<open>INACTIVE\<close>, with a timeout count of 2.\<close>

definition stateTimedOut :: HelloState where
  "stateTimedOut =
     \<lparr>m_adjacencyList = [\<lparr>adjName = [''site'', ''r1''], faceId = 7, status = STATUS_INACTIVE,
                           interestTimedOutNo = 2\<rparr>],
      clock = 0, m_scheduler = [], effects = []\<rparr>"

definition probe1 :: name where
  "probe1 = [''site'', ''r1'', ''NLSR'', ''INFO'', ''wire:/site/r0'']"

definition data1 :: name where
  "data1 = [''site'', ''r1'', ''NLSR'', ''INFO'', ''wire:/site/r0'', ''v=1'']"

definition dataBad :: name where
  "dataBad = [''site'', ''r1'', ''NLSR'', ''DATA'', ''wire:/site/r0'', ''v=1'']"

text \<open>
  An execution: a probe, a response, three timeouts in a row, two more responses.
\<close>

definition trace1 :: "input list" where
  "trace1 = [SendHelloInterest [''site'', ''r1''], ContentValidated data1,
             ProcessInterestTimedOut probe1, ProcessInterestTimedOut probe1,
             ProcessInterestTimedOut probe1, ContentValidated data1, ContentValidated data1]"

section \<open>Properties of the cost calculator\<close>

lemma updateRttHistory_loop_drop:
  "updateRttHistory_loop maxh history = drop (length history - maxh) history"
proof (induction maxh history rule: updateRttHistory_loop.induct)
  case (1 maxh history)
  show ?case
  proof (cases "length history > maxh")
    case True
    then obtain x rest where h: "history = x # rest" by (cases history) auto
    with True have "Suc (length rest) - maxh = Suc (length rest - maxh)" by simp
    with 1 True h show ?thesis
      by (subst updateRttHistory_loop.simps) simp
  next
    case False
    then show ?thesis by (subst updateRttHistory_loop.simps) simp
  qed
qed

lemma updateRttHistory_history:
  "m_rttHistory (updateRttHistory P nb v c) =
     (m_rttHistory c)(nb \<mapsto>
        (let old = (case m_rttHistory c nb of None \<Rightarrow> [] | Some h \<Rightarrow> h)
         in drop (Suc (length old) - MAX_RTT_HISTORY P) (old @ [v])))"
  by (simp add: updateRttHistory_def Let_def updateRttHistory_loop_drop)

lemma updateRttHistory_weights [simp]:
  "m_rttWeight (updateRttHistory P nb v c) = m_rttWeight c"
  "m_loadWeight (updateRttHistory P nb v c) = m_loadWeight c"
  "m_stabilityWeight (updateRttHistory P nb v c) = m_stabilityWeight c"
  "m_costAdjustmentCount (updateRttHistory P nb v c) = m_costAdjustmentCount c"
  by (simp_all add: updateRttHistory_def Let_def)

text \<open>
  C9. After \<open>updateRttHistory\<close>, the only operation that writes a history, the history
  of the neighbour has at most \<open>MAX_RTT_HISTORY\<close> samples, and it is the longest suffix
  of the old history followed by the new sample that fits the bound: samples are dropped
  from the front, the most recent ones are kept in their order. The histories of the other
  neighbours are untouched.
\<close>

theorem updateRttHistory_bounded_fifo:
  "(\<exists>h. m_rttHistory (updateRttHistory P nb v c) nb = Some h
        \<and> length h \<le> MAX_RTT_HISTORY P
        \<and> h = drop (Suc (length (case m_rttHistory c nb of None \<Rightarrow> [] | Some old \<Rightarrow> old))
                      - MAX_RTT_HISTORY P)
                   ((case m_rttHistory c nb of None \<Rightarrow> [] | Some old \<Rightarrow> old) @ [v]))
   \<and> (\<forall>other. other = nb
        \<or> m_rttHistory (updateRttHistory P nb v c) other = m_rttHistory c other)"
  by (auto simp: updateRttHistory_history Let_def)

lemma sdiv_nonneg: "0 \<le> d \<Longrightarrow> 0 < t \<Longrightarrow> (d::int) sdiv t = d div t"
  by (cases "d = 0") (simp_all add: signed_divide_int_def)

lemma sdiv_neg: "d < 0 \<Longrightarrow> 0 < t \<Longrightarrow> (d::int) sdiv t \<le> 0"
  by (simp add: signed_divide_int_def pos_imp_zdiv_nonneg_iff)

lemma sdiv_less: 
  assumes "0 < t" "d < k * t" "0 < k" shows "(d::int) sdiv t < k"
proof (cases "0 \<le> d")
  case True
  have "d div t < k"
  proof (rule ccontr)
    assume "\<not> d div t < k"
    then have "k * t \<le> (d div t) * t" using assms(1) by (simp add: mult_right_mono)
    also have "\<dots> \<le> d" using assms(1) div_mult_mod_eq[of d t] pos_mod_sign[of t d] by linarith
    finally show False using assms(2) by simp
  qed
  then show ?thesis using True assms by (simp add: sdiv_nonneg)
next
  case False
  then show ?thesis using sdiv_neg[of d t] assms by simp
qed

lemma sdiv_ge: 
  assumes "0 < t" "k * t \<le> d" "0 \<le> k" shows "k \<le> (d::int) sdiv t"
proof -
  have "0 \<le> d" using assms by (meson mult_nonneg_nonneg order_trans less_imp_le)
  moreover have "k \<le> d div t" using zdiv_mono1[OF assms(2) assms(1)] assms(1) by simp
  ultimately show ?thesis using assms by (simp add: sdiv_nonneg)
qed

lemma clamp_bounds: "0 < (oc::real) \<Longrightarrow> 0.5 * oc \<le> max (min x (oc * 3.0)) (oc * 0.5) \<and> max (min x (oc * 3.0)) (oc * 0.5) \<le> 3.0 * oc"
  by (simp add: max_def min_def)

text \<open>
  C1. When \<open>rttBasedCost\<close> and \<open>originalCost\<close> are positive, the cost that
  \<open>calculateLoadAwareCost\<close> returns lies in the closed interval from
  \<open>0.5 * originalCost\<close> to \<open>3.0 * originalCost\<close>, whatever the weights, the
  history and the clock are.
\<close>

theorem calculateLoadAwareCost_clamped:
  assumes "rttBasedCost > 0" and "originalCost metrics > 0"
  shows "0.5 * originalCost metrics \<le> fst (calculateLoadAwareCost P now nb rttBasedCost metrics c)
       \<and> fst (calculateLoadAwareCost P now nb rttBasedCost metrics c) \<le> 3.0 * originalCost metrics"
proof -
  obtain lf c1 where lf: "getLoadFactor P metrics c = (lf, c1)" by (cases "getLoadFactor P metrics c")
  show ?thesis using assms clamp_bounds[OF assms(2)]
    by (simp add: calculateLoadAwareCost_def Let_def lf)
qed

text \<open>
  The clamp at work: base cost 10 against an original cost of 100 gives 50.
\<close>

theorem calculateLoadAwareCost_clamped_witness:
  "(10::real) > 0 \<and> originalCost metricsNoRtt > 0
   \<and> fst (calculateLoadAwareCost Pns 0 [''site'', ''r1''] 10 metricsNoRtt initialCalculator) = 50
   \<and> 0.5 * originalCost metricsNoRtt
        \<le> fst (calculateLoadAwareCost Pns 0 [''site'', ''r1''] 10 metricsNoRtt initialCalculator)
   \<and> fst (calculateLoadAwareCost Pns 0 [''site'', ''r1''] 10 metricsNoRtt initialCalculator)
        \<le> 3.0 * originalCost metricsNoRtt"
proof -
  have v: "fst (calculateLoadAwareCost Pns 0 [''site'', ''r1''] 10 metricsNoRtt initialCalculator) = 50"
    by (simp add: calculateLoadAwareCost_def getLoadFactor_def getRttFactor_def
        getStabilityFactor_def metricsNoRtt_def initialCalculator_def Pns_def Let_def
        duration_cast_count_def signed_divide_int_def)
  have h: "originalCost metricsNoRtt > 0" by (simp add: metricsNoRtt_def)
  show ?thesis
    using calculateLoadAwareCost_clamped [of 10 metricsNoRtt Pns 0 "[''site'', ''r1'']" initialCalculator] h v
    by simp
qed

text \<open>
  C3, as the code has it. \<open>getRttFactor\<close> truncates the RTT to whole milliseconds
  before it compares. With a positive number of ticks per millisecond, every
  \<open>currentRtt\<close> below 11 ms gives the factor 0.0 (10 ms, and 10.0001 ms as well), and
  every \<open>currentRtt\<close> of at least 11 ms and below 51 ms gives 0.2.
\<close>

theorem getRttFactor_truncated_steps:
  assumes "rttTicksPerMs P > 0" and "currentRtt metrics = Some d"
  shows "(d < 11 * rttTicksPerMs P \<longrightarrow> getRttFactor P metrics = 0.0)
       \<and> (11 * rttTicksPerMs P \<le> d \<and> d < 51 * rttTicksPerMs P \<longrightarrow> getRttFactor P metrics = 0.2)"
proof (intro conjI impI)
  assume "d < 11 * rttTicksPerMs P"
  then have "d sdiv rttTicksPerMs P < 11" using assms(1) by (intro sdiv_less) simp_all
  then show "getRttFactor P metrics = 0.0"
    using assms(2) by (simp add: getRttFactor_def duration_cast_count_def RTT_THRESHOLD_EXCELLENT_def)
next
  assume a: "11 * rttTicksPerMs P \<le> d \<and> d < 51 * rttTicksPerMs P"
  then have "d sdiv rttTicksPerMs P < 51" using assms(1) by (intro sdiv_less) simp_all
  moreover have "11 \<le> d sdiv rttTicksPerMs P" using a assms(1) by (intro sdiv_ge) simp_all
  ultimately show "getRttFactor P metrics = 0.2"
    using assms(2)
    by (simp add: getRttFactor_def duration_cast_count_def RTT_THRESHOLD_EXCELLENT_def
        RTT_THRESHOLD_GOOD_def)
qed

text \<open>
  C3 as stated fails at 10.0001 ms: with nanosecond ticks that is 10000100 ticks, which
  truncate to 10 ms, and the factor is not 0.2.
\<close>

theorem getRttFactor_10_0001ms_counterexample:
  "getRttFactor Pns (metricsRtt 10000100) \<noteq> 0.2"
  by (simp add: getRttFactor_def metricsRtt_def Pns_def duration_cast_count_def
      signed_divide_int_def RTT_THRESHOLD_EXCELLENT_def)

theorem getRttFactor_truncated_steps_witness:
  "rttTicksPerMs Pns > 0
   \<and> currentRtt (metricsRtt 10000100) = Some 10000100 \<and> 10000100 < 11 * rttTicksPerMs Pns
   \<and> getRttFactor Pns (metricsRtt 10000100) = 0.0
   \<and> currentRtt (metricsRtt 30000000) = Some 30000000
   \<and> 11 * rttTicksPerMs Pns \<le> 30000000 \<and> 30000000 < 51 * rttTicksPerMs Pns
   \<and> getRttFactor Pns (metricsRtt 30000000) = 0.2"
  using getRttFactor_truncated_steps [of Pns "metricsRtt 10000100" 10000100]
        getRttFactor_truncated_steps [of Pns "metricsRtt 30000000" 30000000]
  by (simp add: Pns_def metricsRtt_def)

lemma getLoadFactor_short:
  assumes "case currentRtt metrics of
             None \<Rightarrow> length (historyOf c (neighbor metrics)) < 3
           | Some d \<Rightarrow> min (MAX_RTT_HISTORY P) (Suc (length (historyOf c (neighbor metrics)))) < 3"
  shows "fst (getLoadFactor P metrics c) = 0"
  using assms
  by (auto simp: getLoadFactor_def historyOf_def updateRttHistory_history Let_def min_def
           split: option.splits if_splits)

lemma getLoadFactor_weights [simp]:
  "m_rttWeight (snd (getLoadFactor P metrics c)) = m_rttWeight c"
  "m_loadWeight (snd (getLoadFactor P metrics c)) = m_loadWeight c"
  "m_stabilityWeight (snd (getLoadFactor P metrics c)) = m_stabilityWeight c"
  by (simp_all add: getLoadFactor_def Let_def split: option.splits)

lemma getStabilityFactor_recent:
  assumes "clockTicksPerSec P > 0"
    and "timeoutCount metrics = None \<or> timeoutCount metrics = Some 0"
    and "case lastSuccessTime metrics of None \<Rightarrow> True | Some t \<Rightarrow> now - t \<le> 60 * clockTicksPerSec P"
  shows "getStabilityFactor P now metrics = 0"
proof (cases "lastSuccessTime metrics")
  case None
  then show ?thesis using assms(2) by (auto simp: getStabilityFactor_def)
next
  case (Some t)
  with assms(3) have "now - t < 61 * clockTicksPerSec P" using assms(1) by simp
  then have "(now - t) sdiv clockTicksPerSec P < 61" using assms(1) by (intro sdiv_less) simp_all
  then show ?thesis using assms(2) Some
    by (auto simp: getStabilityFactor_def duration_cast_count_def)
qed

text \<open>
  C5, as the code has it. With positive \<open>rttBasedCost\<close> and \<open>originalCost\<close>, a
  history that has fewer than 3 samples when the load factor reads it (that is, after
  the current sample, if there is one, was appended and the bound applied), no timeouts
  and a last success at most 60 seconds ago, the returned cost is
  \<open>rttBasedCost * (1 + w_R * f_R)\<close> clamped into
  \<open>[0.5 * originalCost, 3.0 * originalCost]\<close>.
\<close>

theorem calculateLoadAwareCost_short_history:
  assumes "rttBasedCost > 0" and "originalCost metrics > 0"
    and "clockTicksPerSec P > 0"
    and "case currentRtt metrics of
           None \<Rightarrow> length (historyOf c (neighbor metrics)) < 3
         | Some d \<Rightarrow> min (MAX_RTT_HISTORY P) (Suc (length (historyOf c (neighbor metrics)))) < 3"
    and "timeoutCount metrics = None \<or> timeoutCount metrics = Some 0"
    and "case lastSuccessTime metrics of None \<Rightarrow> True | Some t \<Rightarrow> now - t \<le> 60 * clockTicksPerSec P"
  shows "fst (calculateLoadAwareCost P now nb rttBasedCost metrics c) =
           max (min (rttBasedCost * (1 + m_rttWeight c * getRttFactor P metrics))
                    (originalCost metrics * 3.0))
               (originalCost metrics * 0.5)"
proof -
  obtain lf c1 where lf: "getLoadFactor P metrics c = (lf, c1)" by (cases "getLoadFactor P metrics c")
  have "lf = 0" using getLoadFactor_short [OF assms(4)] lf by simp
  moreover have "m_rttWeight c1 = m_rttWeight c" using getLoadFactor_weights(1) [of P metrics c] lf by simp
  moreover have "getStabilityFactor P now metrics = 0"
    using getStabilityFactor_recent [OF assms(3) assms(5) assms(6)] .
  ultimately show ?thesis using assms(1,2)
    by (simp add: calculateLoadAwareCost_def Let_def lf)
qed

text \<open>
  C5 as stated fails where the clamp applies: base cost 10, original cost 100, no RTT, an
  empty history, no timeouts and a success at this very instant return 50, not
  \<open>10 * (1 + w_R * f_R) = 10\<close>.
\<close>

theorem calculateLoadAwareCost_short_history_counterexample:
  "fst (calculateLoadAwareCost Pns 0 [''site'', ''r1''] 10 metricsNoRtt initialCalculator)
     \<noteq> 10 * (1 + m_rttWeight initialCalculator * getRttFactor Pns metricsNoRtt)"
  by (simp add: calculateLoadAwareCost_def getLoadFactor_def getRttFactor_def
        getStabilityFactor_def metricsNoRtt_def initialCalculator_def Pns_def Let_def
        duration_cast_count_def signed_divide_int_def)

text \<open>
  C10. A call with positive \<open>rttBasedCost\<close> and \<open>originalCost\<close> and a present
  \<open>currentRtt\<close> runs \<open>updateRttHistory\<close> twice with the same millisecond value:
  once in \<open>getLoadFactor\<close>, on \<open>metrics.neighbor\<close>, and once after the clamp, on
  the \<open>neighbor\<close> argument. When the two names agree, the history of that neighbour
  is the old one with the sample appended and trimmed, twice over; when the bound leaves
  room for two more samples it is the old history followed by two copies of the
  sample.
\<close>

theorem calculateLoadAwareCost_appends_twice:
  assumes "rttBasedCost > 0" and "originalCost metrics > 0" and "currentRtt metrics = Some d"
  shows "snd (calculateLoadAwareCost P now nb rttBasedCost metrics c) =
           (let v = real_of_int (duration_cast_count (rttTicksPerMs P) d);
                c2 = updateRttHistory P nb v (updateRttHistory P (neighbor metrics) v c)
            in c2\<lparr>m_costAdjustmentCount := m_costAdjustmentCount c + 1\<rparr>)
       \<and> (neighbor metrics = nb \<longrightarrow>
            m_rttHistory (snd (calculateLoadAwareCost P now nb rttBasedCost metrics c)) nb =
              (let v = real_of_int (duration_cast_count (rttTicksPerMs P) d);
                   h1 = updateRttHistory_loop (MAX_RTT_HISTORY P) (historyOf c nb @ [v])
               in Some (updateRttHistory_loop (MAX_RTT_HISTORY P) (h1 @ [v]))))
       \<and> (neighbor metrics = nb \<and> length (historyOf c nb) + 2 \<le> MAX_RTT_HISTORY P \<longrightarrow>
            m_rttHistory (snd (calculateLoadAwareCost P now nb rttBasedCost metrics c)) nb =
              (let v = real_of_int (duration_cast_count (rttTicksPerMs P) d)
               in Some (historyOf c nb @ [v, v])))"
proof -
  let ?v = "real_of_int (duration_cast_count (rttTicksPerMs P) d)"
  let ?c1 = "updateRttHistory P (neighbor metrics) ?v c"
  have snd_lf: "snd (getLoadFactor P metrics c) = ?c1"
    using assms(3) by (simp add: getLoadFactor_def Let_def split: option.splits)
  obtain lf c1 where lf: "getLoadFactor P metrics c = (lf, c1)" by (cases "getLoadFactor P metrics c")
  with snd_lf have c1: "c1 = ?c1" by simp
  have main: "snd (calculateLoadAwareCost P now nb rttBasedCost metrics c) =
           (updateRttHistory P nb ?v ?c1)\<lparr>m_costAdjustmentCount := m_costAdjustmentCount c + 1\<rparr>"
    using assms by (simp add: calculateLoadAwareCost_def Let_def lf c1)
  have twice: "neighbor metrics = nb \<Longrightarrow>
      m_rttHistory (updateRttHistory P nb ?v ?c1) nb =
        Some (updateRttHistory_loop (MAX_RTT_HISTORY P)
               (updateRttHistory_loop (MAX_RTT_HISTORY P) (historyOf c nb @ [?v]) @ [?v]))"
    by (simp add: updateRttHistory_def Let_def historyOf_def)
  have uncapped: "length (historyOf c nb) + 2 \<le> MAX_RTT_HISTORY P \<Longrightarrow>
      updateRttHistory_loop (MAX_RTT_HISTORY P)
               (updateRttHistory_loop (MAX_RTT_HISTORY P) (historyOf c nb @ [?v]) @ [?v])
       = historyOf c nb @ [?v, ?v]"
    by (simp add: updateRttHistory_loop_drop)
  show ?thesis
    using main twice uncapped by (simp add: Let_def)
qed

text \<open>
  Two samples before the call are enough for the load factor to count: the sample of the
  call itself makes three. With the history \<open>[10, 1000]\<close> and an RTT of 10 ms the
  load factor is 1.5 and the cost 160, not 100.
\<close>

lemma variationFactor_spread: "variationFactor [10, 1000, 10] = 1.5"
proof -
  have "(170::real)\<^sup>2 < 217800" by (simp add: power2_eq_square)
  then have "170 < sqrt 217800" by (rule real_less_rsqrt)
  then show ?thesis
    by (simp add: variationFactor_def Let_def)
qed

lemma two_prior_samples_load_factor:
  "fst (calculateLoadAwareCost Pns 0 [''site'', ''r1''] 100 (metricsRtt 10000000) calcTwoSamples) = 160"
  apply (simp add: calculateLoadAwareCost_def getLoadFactor_def getRttFactor_def
        getStabilityFactor_def metricsRtt_def initialCalculator_def Pns_def Let_def calcTwoSamples_def
        duration_cast_count_def signed_divide_int_def updateRttHistory_def updateRttHistory_loop_drop
        variationFactor_spread RTT_THRESHOLD_EXCELLENT_def DEFAULT_LOAD_WEIGHT_def)
  done

theorem calculateLoadAwareCost_short_history_witness:
  "(100::real) > 0 \<and> originalCost (metricsRtt 30000000) > 0 \<and> clockTicksPerSec Pns > 0
   \<and> (case currentRtt (metricsRtt 30000000) of
         None \<Rightarrow> length (historyOf initialCalculator (neighbor (metricsRtt 30000000))) < 3
       | Some d \<Rightarrow> min (MAX_RTT_HISTORY Pns)
                      (Suc (length (historyOf initialCalculator (neighbor (metricsRtt 30000000))))) < 3)
   \<and> (timeoutCount (metricsRtt 30000000) = None \<or> timeoutCount (metricsRtt 30000000) = Some 0)
   \<and> (case lastSuccessTime (metricsRtt 30000000) of
         None \<Rightarrow> True | Some t \<Rightarrow> 5000000000 - t \<le> 60 * clockTicksPerSec Pns)
   \<and> fst (calculateLoadAwareCost Pns 5000000000 [''site'', ''r1''] 100 (metricsRtt 30000000)
            initialCalculator) = 106"
proof -
  have f: "getRttFactor Pns (metricsRtt 30000000) = 0.2"
    by (simp add: getRttFactor_def metricsRtt_def Pns_def duration_cast_count_def
        signed_divide_int_def RTT_THRESHOLD_EXCELLENT_def RTT_THRESHOLD_GOOD_def)
  have h: "(100::real) > 0" "originalCost (metricsRtt 30000000) > 0" "clockTicksPerSec Pns > 0"
    "case currentRtt (metricsRtt 30000000) of
         None \<Rightarrow> length (historyOf initialCalculator (neighbor (metricsRtt 30000000))) < 3
       | Some d \<Rightarrow> min (MAX_RTT_HISTORY Pns)
                      (Suc (length (historyOf initialCalculator (neighbor (metricsRtt 30000000))))) < 3"
    "timeoutCount (metricsRtt 30000000) = None \<or> timeoutCount (metricsRtt 30000000) = Some 0"
    "case lastSuccessTime (metricsRtt 30000000) of
         None \<Rightarrow> True | Some t \<Rightarrow> 5000000000 - t \<le> 60 * clockTicksPerSec Pns"
    by (simp_all add: metricsRtt_def Pns_def historyOf_def initialCalculator_def)
  have w: "m_rttWeight initialCalculator = 0.3" "originalCost (metricsRtt 30000000) = 100"
    by (simp_all add: initialCalculator_def DEFAULT_RTT_WEIGHT_def metricsRtt_def)
  have "fst (calculateLoadAwareCost Pns 5000000000 [''site'', ''r1''] 100 (metricsRtt 30000000)
            initialCalculator) = 106"
    using calculateLoadAwareCost_short_history [OF h, of "[''site'', ''r1'']"]
    by (simp add: f w)
  with h show ?thesis by blast
qed

theorem calculateLoadAwareCost_appends_twice_witness:
  "(100::real) > 0 \<and> originalCost (metricsRtt 30000000) > 0
   \<and> currentRtt (metricsRtt 30000000) = Some 30000000
   \<and> neighbor (metricsRtt 30000000) = [''site'', ''r1'']
   \<and> length (historyOf initialCalculator [''site'', ''r1'']) + 2 \<le> MAX_RTT_HISTORY Pns
   \<and> m_rttHistory (snd (calculateLoadAwareCost Pns 0 [''site'', ''r1''] 100 (metricsRtt 30000000)
                          initialCalculator)) [''site'', ''r1''] = Some [30, 30]"
proof -
  have h: "(100::real) > 0" "originalCost (metricsRtt 30000000) > 0"
    "currentRtt (metricsRtt 30000000) = Some 30000000"
    by (simp_all add: metricsRtt_def)
  have g: "neighbor (metricsRtt 30000000) = [''site'', ''r1'']
           \<and> length (historyOf initialCalculator [''site'', ''r1'']) + 2 \<le> MAX_RTT_HISTORY Pns"
    by (simp add: metricsRtt_def Pns_def historyOf_def initialCalculator_def)
  have "m_rttHistory (snd (calculateLoadAwareCost Pns 0 [''site'', ''r1''] 100 (metricsRtt 30000000)
                          initialCalculator)) [''site'', ''r1'']
        = (let v = real_of_int (duration_cast_count (rttTicksPerMs Pns) 30000000)
           in Some (historyOf initialCalculator [''site'', ''r1''] @ [v, v]))"
    using calculateLoadAwareCost_appends_twice
      [where rttBasedCost = 100 and metrics = "metricsRtt 30000000" and d = 30000000 and P = Pns
         and c = initialCalculator and now = 0 and nb = "[''site'', ''r1'']", OF h] g
    by blast
  then show ?thesis using h g
    by (simp add: Pns_def historyOf_def initialCalculator_def Let_def
      duration_cast_count_def signed_divide_int_def)
qed

section \<open>Properties of the hello protocol\<close>

lemma findAdjacent_updateAdjacent:
  assumes "\<And>a. adjName (f a) = adjName a"
  shows "findAdjacent (updateAdjacent f adl n) m =
           (if m = n then map_option f (findAdjacent adl n) else findAdjacent adl m)"
  using assms by (induction adl) auto

lemma findAdjacent_setStatus:
  "findAdjacent (setStatusOfNeighbor adl n st) m =
     (if m = n then map_option (\<lambda>a. a\<lparr>status := st\<rparr>) (findAdjacent adl n) else findAdjacent adl m)"
  unfolding setStatusOfNeighbor_def by (rule findAdjacent_updateAdjacent) simp

lemma findAdjacent_setCount:
  "findAdjacent (setTimedOutInterestCount adl n k) m =
     (if m = n then map_option (\<lambda>a. a\<lparr>interestTimedOutNo := k\<rparr>) (findAdjacent adl n)
      else findAdjacent adl m)"
  unfolding setTimedOutInterestCount_def by (rule findAdjacent_updateAdjacent) simp

lemma findAdjacent_increment:
  "findAdjacent (incrementTimedOutInterestCount adl n) m =
     (if m = n then map_option (\<lambda>a. a\<lparr>interestTimedOutNo := interestTimedOutNo a + 1\<rparr>)
                      (findAdjacent adl n)
      else findAdjacent adl m)"
  unfolding incrementTimedOutInterestCount_def by (rule findAdjacent_updateAdjacent) simp

lemmas findAdjacent_simps = findAdjacent_setStatus findAdjacent_setCount findAdjacent_increment

lemma findAdjacent_name: "findAdjacent adl n = Some a \<Longrightarrow> adjName a = n"
  by (induction adl) (auto split: if_splits)

lemma getPrefix_neg_append3 [simp]: "getPrefix_neg (n @ [a, b, c]) 3 = n"
  by (simp add: getPrefix_neg_def)

lemma expressInterest_effects:
  "expressInterest (n @ [a, b, c]) seconds s =
     s\<lparr>effects := effects s @ [OnInterestSent n, FaceExpressInterest (n @ [a, b, c]) seconds,
                                HpIncrementSignal SENT_HELLO_INTEREST]\<rparr>"
  by (simp add: expressInterest_def emit_def Let_def)

text \<open>
  C8. For a neighbour that is in the adjacency list, \<open>sendHelloInterest\<close> hands a
  probe to the face exactly when the face id is not 0 (then it emits \<open>InterestSent\<close>,
  expresses the Interest \<open>/<neighbour>/NLSR/INFO/<router>\<close> with the configured
  lifetime and counts it; otherwise it has no effect on the outside), and in both cases
  it schedules the next \<open>sendHelloInterest\<close> for the same neighbour at
  \<open>clock + infoInterestInterval\<close>.
\<close>

theorem sendHelloInterest_probe_iff_face:
  assumes "findAdjacent (m_adjacencyList s) nb = Some adjacent"
  shows "newEffects s (sendHelloInterest env nb s) =
           (if faceId adjacent \<noteq> 0
            then [OnInterestSent nb,
                  FaceExpressInterest (nb @ [NLSR_COMPONENT, INFO_COMPONENT, routerPrefixWire env])
                    (interestResendTime env),
                  HpIncrementSignal SENT_HELLO_INTEREST]
            else [])
       \<and> ((\<exists>e \<in> set (newEffects s (sendHelloInterest env nb s)). isProbe e) \<longleftrightarrow> faceId adjacent \<noteq> 0)
       \<and> m_scheduler (sendHelloInterest env nb s) =
           m_scheduler s @ [(clock s + unat (infoInterestInterval env), CallSendHelloInterest nb)]
       \<and> m_adjacencyList (sendHelloInterest env nb s) = m_adjacencyList s"
  using assms findAdjacent_name [OF assms]
  by (simp add: sendHelloInterest_def expressInterest_effects schedule_def newEffects_def Let_def)

theorem sendHelloInterest_probe_iff_face_witness:
  "findAdjacent (m_adjacencyList (state0 7 STATUS_INACTIVE)) [''site'', ''r1'']
     = Some (adj1 7 STATUS_INACTIVE)
   \<and> faceId (adj1 7 STATUS_INACTIVE) \<noteq> 0
   \<and> newEffects (state0 7 STATUS_INACTIVE)
        (sendHelloInterest env0 [''site'', ''r1''] (state0 7 STATUS_INACTIVE))
      = [OnInterestSent [''site'', ''r1''], FaceExpressInterest probe1 15,
         HpIncrementSignal SENT_HELLO_INTEREST]
   \<and> m_scheduler (sendHelloInterest env0 [''site'', ''r1''] (state0 7 STATUS_INACTIVE))
      = [(60, CallSendHelloInterest [''site'', ''r1''])]
   \<and> findAdjacent (m_adjacencyList (state0 0 STATUS_INACTIVE)) [''site'', ''r1'']
     = Some (adj1 0 STATUS_INACTIVE)
   \<and> faceId (adj1 0 STATUS_INACTIVE) = 0
   \<and> newEffects (state0 0 STATUS_INACTIVE)
        (sendHelloInterest env0 [''site'', ''r1''] (state0 0 STATUS_INACTIVE)) = []
   \<and> m_scheduler (sendHelloInterest env0 [''site'', ''r1''] (state0 0 STATUS_INACTIVE))
      = [(60, CallSendHelloInterest [''site'', ''r1''])]"
proof -
  have f7: "findAdjacent (m_adjacencyList (state0 7 STATUS_INACTIVE)) [''site'', ''r1'']
              = Some (adj1 7 STATUS_INACTIVE)"
    and f0: "findAdjacent (m_adjacencyList (state0 0 STATUS_INACTIVE)) [''site'', ''r1'']
              = Some (adj1 0 STATUS_INACTIVE)"
    by (simp_all add: state0_def adj1_def)
  show ?thesis
    using sendHelloInterest_probe_iff_face [OF f7, of env0]
          sendHelloInterest_probe_iff_face [OF f0, of env0] f7 f0
    by (simp add: env0_def probe1_def adj1_def state0_def NLSR_COMPONENT_def INFO_COMPONENT_def)
qed

text \<open>
  C4, as the code has it. For a validated Data whose antepenultimate name component
  is not \<open>INFO\<close>, \<open>onContentValidated\<close> leaves the adjacency list and the scheduler
  as they are, emits no signal and makes no reconvergence call, and increments
  \<open>RCV_HELLO_DATA\<close> once: the counter counts every validated Data.
\<close>

theorem onContentValidated_malformed_counts:
  assumes "get_neg dataName 3 = Some info" and "info \<noteq> INFO_COMPONENT"
  shows "onContentValidated env dataName s =
           Inr (s\<lparr>effects := effects s @ [HpIncrementSignal RCV_HELLO_DATA]\<rparr>)"
  using assms by (simp add: onContentValidated_def emit_def)

text \<open>
  C4 as stated fails: the Data \<open>/site/r1/NLSR/DATA/<router>/v=1\<close> is counted.
\<close>

theorem onContentValidated_malformed_counterexample:
  "onContentValidated env0 dataBad (state0 7 STATUS_INACTIVE) =
     Inr ((state0 7 STATUS_INACTIVE)\<lparr>effects := [HpIncrementSignal RCV_HELLO_DATA]\<rparr>)"
  by (simp add: onContentValidated_def emit_def dataBad_def get_neg_def INFO_COMPONENT_def
      state0_def)

theorem onContentValidated_malformed_counts_witness:
  "get_neg dataBad 3 = Some ''DATA'' \<and> ''DATA'' \<noteq> INFO_COMPONENT
   \<and> onContentValidated env0 dataBad (state0 7 STATUS_ACTIVE) =
       Inr ((state0 7 STATUS_ACTIVE)\<lparr>effects := [HpIncrementSignal RCV_HELLO_DATA]\<rparr>)"
proof -
  have h: "get_neg dataBad 3 = Some ''DATA''" "''DATA'' \<noteq> INFO_COMPONENT"
    by (simp_all add: dataBad_def get_neg_def INFO_COMPONENT_def)
  show ?thesis
    using onContentValidated_malformed_counts [OF h, of env0 "state0 7 STATUS_ACTIVE"] h
    by (simp add: state0_def)
qed

lemma reconverge_adjacency [simp]: "m_adjacencyList (reconverge env s) = m_adjacencyList s"
  by (simp add: reconverge_def emit_def)

lemma emit_adjacency [simp]: "m_adjacencyList (emit e s) = m_adjacencyList s"
  by (simp add: emit_def)

lemma emit_effects [simp]: "effects (emit e s) = effects s @ [e]"
  by (simp add: emit_def)

text \<open>What onContentValidated does for a well-formed name.\<close>

lemma onContentValidated_info:
  assumes "get_neg dataName 3 = Some INFO_COMPONENT"
  shows "onContentValidated env dataName s =
     Inr (let nbr = getPrefix_neg dataName 4;
              adl = setTimedOutInterestCount
                      (setStatusOfNeighbor (m_adjacencyList s) nbr STATUS_ACTIVE) nbr 0;
              changed = (isNeighbor (m_adjacencyList s) nbr
                         \<and> getStatusOfNeighbor (m_adjacencyList s) nbr = STATUS_INACTIVE)
          in s\<lparr>m_adjacencyList := adl,
                effects := effects s @ [OnDataReceived nbr]
                  @ (if changed
                     then [OnNeighborStatusChanged nbr STATUS_ACTIVE,
                           if hyperbolicState env = HYPERBOLIC_STATE_ON
                           then ScheduleRoutingTableCalculation else ScheduleAdjLsaBuild,
                           OnInitialHelloDataValidated nbr]
                     else [])
                  @ [HpIncrementSignal RCV_HELLO_DATA]\<rparr>)"
proof (cases "findAdjacent (m_adjacencyList s) (getPrefix_neg dataName 4)")
  case None
  then show ?thesis using assms
    by (simp add: onContentValidated_def Let_def getStatusOfNeighbor_def isNeighbor_def
        findAdjacent_simps emit_def)
next
  case (Some a)
  then show ?thesis using assms
    by (cases "status a")
       (simp_all add: onContentValidated_def Let_def getStatusOfNeighbor_def isNeighbor_def
        findAdjacent_simps emit_def reconverge_def)
qed

text \<open>
  \<open>onContentValidated\<close> is the only handler that emits \<open>DataReceived\<close>. It is
  defined on every name of at least 3 components, and it never emits \<open>DataReceived\<close>
  for a neighbour of the adjacency list without leaving that neighbour's timeout count
  at 0 and its status \<open>ACTIVE\<close>.
\<close>

lemma onContentValidated_data_received_only_with_reset:
  assumes "3 \<le> length dataName" and "isNeighbor (m_adjacencyList s) nb"
  shows "\<exists>s'. onContentValidated env dataName s = Inr s'
            \<and> (OnDataReceived nb \<in> set (newEffects s s') \<longrightarrow>
                 getTimedOutInterestCount (unknownCount env) (m_adjacencyList s') nb = 0
                 \<and> getStatusOfNeighbor (m_adjacencyList s') nb = STATUS_ACTIVE)"
proof -
  from assms(1) obtain info where info: "get_neg dataName 3 = Some info"
    by (auto simp: get_neg_def)
  from assms(2) obtain a where a: "findAdjacent (m_adjacencyList s) nb = Some a"
    by (auto simp: isNeighbor_def)
  show ?thesis
  proof (cases "info = INFO_COMPONENT")
    case False
    then show ?thesis using info
      by (simp add: onContentValidated_def emit_def newEffects_def)
  next
    case True
    with info have i: "get_neg dataName 3 = Some INFO_COMPONENT" by simp
    show ?thesis using a
      by (auto simp: onContentValidated_info [OF i] Let_def newEffects_def
          getTimedOutInterestCount_def getStatusOfNeighbor_def findAdjacent_simps)
  qed
qed

text \<open>
  C7. For every validated response \<open>/<neighbour>/NLSR/INFO/<router>/<version>\<close> of a
  neighbour of the adjacency list, whatever the neighbour's status and timeout count
  were, \<open>onContentValidated\<close> returns, emits \<open>DataReceived\<close> for that neighbour,
  and leaves the neighbour's timeout count at 0 and its status \<open>ACTIVE\<close>.
\<close>

theorem onContentValidated_resets_neighbor:
  assumes "get_neg dataName 3 = Some INFO_COMPONENT"
    and "getPrefix_neg dataName 4 = nb"
    and "isNeighbor (m_adjacencyList s) nb"
  shows "\<exists>s'. onContentValidated env dataName s = Inr s'
            \<and> OnDataReceived nb \<in> set (newEffects s s')
            \<and> getTimedOutInterestCount (unknownCount env) (m_adjacencyList s') nb = 0
            \<and> getStatusOfNeighbor (m_adjacencyList s') nb = STATUS_ACTIVE"
proof -
  from assms(3) obtain a where a: "findAdjacent (m_adjacencyList s) nb = Some a"
    by (auto simp: isNeighbor_def)
  show ?thesis using a assms(2)
    by (auto simp: onContentValidated_info [OF assms(1)] Let_def newEffects_def
        getTimedOutInterestCount_def getStatusOfNeighbor_def findAdjacent_simps)
qed

text \<open>
  A response that arrives after two timeouts: the count goes from 2 to 0 and the status
  from \<open>INACTIVE\<close> to \<open>ACTIVE\<close>.
\<close>

theorem onContentValidated_resets_neighbor_witness:
  "get_neg data1 3 = Some INFO_COMPONENT
   \<and> getPrefix_neg data1 4 = [''site'', ''r1'']
   \<and> isNeighbor (m_adjacencyList stateTimedOut) [''site'', ''r1'']
   \<and> getTimedOutInterestCount (unknownCount env0) (m_adjacencyList stateTimedOut)
         [''site'', ''r1''] = 2
   \<and> getStatusOfNeighbor (m_adjacencyList stateTimedOut) [''site'', ''r1''] = STATUS_INACTIVE
   \<and> (\<exists>s'. onContentValidated env0 data1 stateTimedOut = Inr s'
         \<and> OnDataReceived [''site'', ''r1''] \<in> set (newEffects stateTimedOut s')
         \<and> getTimedOutInterestCount (unknownCount env0) (m_adjacencyList s') [''site'', ''r1''] = 0
         \<and> getStatusOfNeighbor (m_adjacencyList s') [''site'', ''r1''] = STATUS_ACTIVE)"
proof -
  have h: "get_neg data1 3 = Some INFO_COMPONENT"
    "getPrefix_neg data1 4 = [''site'', ''r1'']"
    "isNeighbor (m_adjacencyList stateTimedOut) [''site'', ''r1'']"
    by (simp_all add: data1_def get_neg_def getPrefix_neg_def INFO_COMPONENT_def
        stateTimedOut_def isNeighbor_def)
  have b: "getTimedOutInterestCount (unknownCount env0) (m_adjacencyList stateTimedOut)
             [''site'', ''r1''] = 2"
    "getStatusOfNeighbor (m_adjacencyList stateTimedOut) [''site'', ''r1''] = STATUS_INACTIVE"
    by (simp_all add: getTimedOutInterestCount_def getStatusOfNeighbor_def stateTimedOut_def)
  show ?thesis
    using onContentValidated_resets_neighbor [OF h, of env0] h b by simp
qed

lemma run_append:
  "run env (xs @ ys) s = (case run env xs s of Inl e \<Rightarrow> Inl e | Inr s' \<Rightarrow> run env ys s')"
  by (induction xs arbitrary: s) (auto split: sum.splits)

lemma word_of_nat_below:
  "k < unat (r :: 32 word) \<Longrightarrow> (word_of_nat k :: 32 word) < r"
proof -
  assume k: "k < unat r"
  have "unat r < 2 ^ 32" using unsigned_less [of r, where 'a = nat] by simp
  with k have "k < 2 ^ LENGTH(32)" by simp
  then have "unat (word_of_nat k :: 32 word) = k" by (simp add: unat_of_nat)
  with k show ?thesis by (simp add: word_less_nat_alt)
qed

lemma processInterestTimedOut_known:
  assumes "get_neg interestName 2 = Some INFO_COMPONENT"
    and "findAdjacent (m_adjacencyList s) (getPrefix_neg interestName 3) = Some a"
  shows "processInterestTimedOut env interestName s =
     Inr (let nbr = getPrefix_neg interestName 3;
              adl = incrementTimedOutInterestCount (m_adjacencyList s) nbr;
              n = (word_of_nat (Suc (interestTimedOutNo a)) :: 32 word)
          in if n < interestRetryNumber env then
               s\<lparr>m_adjacencyList := adl,
                  effects := effects s @
                    [OnTimeout nbr n, OnInterestSent nbr,
                     FaceExpressInterest (nbr @ [NLSR_COMPONENT, INFO_COMPONENT, routerPrefixWire env])
                       (interestResendTime env),
                     HpIncrementSignal SENT_HELLO_INTEREST]\<rparr>
             else if status a = STATUS_ACTIVE then
               s\<lparr>m_adjacencyList := setStatusOfNeighbor adl nbr STATUS_INACTIVE,
                  effects := effects s @
                    [OnTimeout nbr n, OnNeighborStatusChanged nbr STATUS_INACTIVE,
                     if hyperbolicState env = HYPERBOLIC_STATE_ON
                     then ScheduleRoutingTableCalculation else ScheduleAdjLsaBuild]\<rparr>
             else s\<lparr>m_adjacencyList := adl, effects := effects s @ [OnTimeout nbr n]\<rparr>)"
  using assms
  by (simp add: processInterestTimedOut_def Let_def getStatusOfNeighbor_def
      getTimedOutInterestCount_def findAdjacent_simps expressInterest_effects emit_def
      reconverge_def)

lemma timeouts_below_limit:
  assumes "findAdjacent (m_adjacencyList s) nb = Some a"
    and "interestTimedOutNo a = 0"
    and "get_neg interestName 2 = Some INFO_COMPONENT"
    and "getPrefix_neg interestName 3 = nb"
  shows "k < unat (interestRetryNumber env) \<Longrightarrow>
     \<exists>adl E. run env (replicate k (ProcessInterestTimedOut interestName)) s =
                Inr (s\<lparr>m_adjacencyList := adl, effects := effects s @ E\<rparr>)
            \<and> findAdjacent adl nb = Some (a\<lparr>interestTimedOutNo := k\<rparr>)
            \<and> filter isStatusChange E = [] \<and> filter isReconvergence E = []"
proof (induction k)
  case 0
  have "run env (replicate 0 (ProcessInterestTimedOut interestName)) s =
          Inr (s\<lparr>m_adjacencyList := m_adjacencyList s, effects := effects s @ []\<rparr>)"
    by simp
  moreover have "findAdjacent (m_adjacencyList s) nb = Some (a\<lparr>interestTimedOutNo := 0\<rparr>)"
    using assms(1,2) by simp
  ultimately show ?case
    by (intro exI conjI) (assumption, assumption, simp_all)
next
  case (Suc k)
  then have "k < unat (interestRetryNumber env)" by simp
  with Suc.IH obtain adl E where
    r: "run env (replicate k (ProcessInterestTimedOut interestName)) s =
          Inr (s\<lparr>m_adjacencyList := adl, effects := effects s @ E\<rparr>)"
    and f: "findAdjacent adl nb = Some (a\<lparr>interestTimedOutNo := k\<rparr>)"
    and e: "filter isStatusChange E = []" "filter isReconvergence E = []"
    by blast
  let ?sk = "s\<lparr>m_adjacencyList := adl, effects := effects s @ E\<rparr>"
  have lt: "(word_of_nat (Suc k) :: 32 word) < interestRetryNumber env"
    using Suc.prems by (rule word_of_nat_below)
  have f': "findAdjacent (m_adjacencyList ?sk) (getPrefix_neg interestName 3)
              = Some (a\<lparr>interestTimedOutNo := k\<rparr>)"
    using f assms(4) by simp
  have step: "processInterestTimedOut env interestName ?sk =
      Inr (s\<lparr>m_adjacencyList := incrementTimedOutInterestCount adl nb,
             effects := effects s @ (E @
               [OnTimeout nb (word_of_nat (Suc k)), OnInterestSent nb,
                FaceExpressInterest (nb @ [NLSR_COMPONENT, INFO_COMPONENT, routerPrefixWire env])
                  (interestResendTime env),
                HpIncrementSignal SENT_HELLO_INTEREST])\<rparr>)"
    using lt assms(4)
    by (simp add: processInterestTimedOut_known [OF assms(3) f'] Let_def)
  have "replicate (Suc k) (ProcessInterestTimedOut interestName)
          = replicate k (ProcessInterestTimedOut interestName) @ [ProcessInterestTimedOut interestName]"
    by (simp add: replicate_append_same)
  then have "run env (replicate (Suc k) (ProcessInterestTimedOut interestName)) s =
      Inr (s\<lparr>m_adjacencyList := incrementTimedOutInterestCount adl nb,
             effects := effects s @ (E @
               [OnTimeout nb (word_of_nat (Suc k)), OnInterestSent nb,
                FaceExpressInterest (nb @ [NLSR_COMPONENT, INFO_COMPONENT, routerPrefixWire env])
                  (interestResendTime env),
                HpIncrementSignal SENT_HELLO_INTEREST])\<rparr>)"
    using r step by (simp add: run_append)
  moreover have "findAdjacent (incrementTimedOutInterestCount adl nb) nb
                   = Some (a\<lparr>interestTimedOutNo := Suc k\<rparr>)"
    using f by (simp add: findAdjacent_simps)
  ultimately show ?case using e
    by (intro exI conjI) (assumption, assumption, simp_all)
qed

lemma getStatus_increment [simp]:
  "getStatusOfNeighbor (incrementTimedOutInterestCount adl n) x = getStatusOfNeighbor adl x"
  by (cases "findAdjacent adl n") (auto simp: getStatusOfNeighbor_def findAdjacent_simps)

lemma processInterestTimedOut_reissue:
  assumes "get_neg interestName 2 = Some INFO_COMPONENT"
    and "(word_of_nat (getTimedOutInterestCount (unknownCount env)
            (incrementTimedOutInterestCount (m_adjacencyList t) (getPrefix_neg interestName 3))
            (getPrefix_neg interestName 3)) :: 32 word) < interestRetryNumber env"
  shows "processInterestTimedOut env interestName t =
     Inr (let nbr = getPrefix_neg interestName 3;
              adl = incrementTimedOutInterestCount (m_adjacencyList t) nbr
          in t\<lparr>m_adjacencyList := adl,
                effects := effects t @
                  [OnTimeout nbr (word_of_nat (getTimedOutInterestCount (unknownCount env) adl nbr)),
                   OnInterestSent nbr,
                   FaceExpressInterest (nbr @ [NLSR_COMPONENT, INFO_COMPONENT, routerPrefixWire env])
                     (interestResendTime env),
                   HpIncrementSignal SENT_HELLO_INTEREST]\<rparr>)"
  using assms
  by (simp add: processInterestTimedOut_def Let_def expressInterest_effects emit_def)

text \<open>
  C2. Take a neighbour that is \<open>ACTIVE\<close> with timeout count 0, as a validated response
  leaves it, a retry limit of at least 1 and a timed-out probe of that neighbour.
  Running the timeout handler retry-limit times in a row ends with the status
  \<open>INACTIVE\<close>, exactly one \<open>NeighborStatusChanged\<close> event, which reports
  \<open>INACTIVE\<close> for that neighbour, and exactly one reconvergence call; after any smaller
  number of timeouts the neighbour is still \<open>ACTIVE\<close>, the count is the number of
  timeouts, and no status change or reconvergence call has happened. And in any state,
  a timeout whose incremented count is below the retry limit emits \<open>Timeout\<close>,
  expresses the probe \<open>/<neighbour>/NLSR/INFO/<router>\<close> again with the configured
  lifetime (the one \<open>sendHelloInterest\<close> uses) and changes no status.
\<close>

theorem processInterestTimedOut_retry_limit:
  assumes "findAdjacent (m_adjacencyList s) nb = Some a"
    and "status a = STATUS_ACTIVE" and "interestTimedOutNo a = 0"
    and "get_neg interestName 2 = Some INFO_COMPONENT"
    and "getPrefix_neg interestName 3 = nb"
    and "0 < unat (interestRetryNumber env)"
  shows
   "(\<exists>s'. run env (replicate (unat (interestRetryNumber env))
                      (ProcessInterestTimedOut interestName)) s = Inr s'
        \<and> getStatusOfNeighbor (m_adjacencyList s') nb = STATUS_INACTIVE
        \<and> filter isStatusChange (newEffects s s') = [OnNeighborStatusChanged nb STATUS_INACTIVE]
        \<and> length (filter isReconvergence (newEffects s s')) = 1)
    \<and> (\<forall>k < unat (interestRetryNumber env).
         \<exists>sk. run env (replicate k (ProcessInterestTimedOut interestName)) s = Inr sk
            \<and> getStatusOfNeighbor (m_adjacencyList sk) nb = STATUS_ACTIVE
            \<and> getTimedOutInterestCount (unknownCount env) (m_adjacencyList sk) nb = k
            \<and> filter isStatusChange (newEffects s sk) = []
            \<and> filter isReconvergence (newEffects s sk) = [])
    \<and> (\<forall>t. (word_of_nat (getTimedOutInterestCount (unknownCount env)
                 (incrementTimedOutInterestCount (m_adjacencyList t) nb) nb) :: 32 word)
               < interestRetryNumber env \<longrightarrow>
         (\<exists>t'. processInterestTimedOut env interestName t = Inr t'
            \<and> newEffects t t' =
                [OnTimeout nb (word_of_nat (getTimedOutInterestCount (unknownCount env)
                                  (m_adjacencyList t') nb)),
                 OnInterestSent nb,
                 FaceExpressInterest (nb @ [NLSR_COMPONENT, INFO_COMPONENT, routerPrefixWire env])
                   (interestResendTime env),
                 HpIncrementSignal SENT_HELLO_INTEREST]
            \<and> (\<forall>x. getStatusOfNeighbor (m_adjacencyList t') x
                     = getStatusOfNeighbor (m_adjacencyList t) x)))"
proof (intro conjI allI impI)
  let ?R = "unat (interestRetryNumber env)"
  let ?to = "ProcessInterestTimedOut interestName"
  from assms(6) obtain k where k: "?R = Suc k" by (cases ?R) auto
  then have "k < ?R" by simp
  from timeouts_below_limit [OF assms(1) assms(3) assms(4) assms(5) this]
  obtain adl E where
    r: "run env (replicate k ?to) s = Inr (s\<lparr>m_adjacencyList := adl, effects := effects s @ E\<rparr>)"
    and f: "findAdjacent adl nb = Some (a\<lparr>interestTimedOutNo := k\<rparr>)"
    and e: "filter isStatusChange E = []" "filter isReconvergence E = []"
    by blast
  let ?sk = "s\<lparr>m_adjacencyList := adl, effects := effects s @ E\<rparr>"
  have n: "(word_of_nat (Suc k) :: 32 word) = interestRetryNumber env"
  proof -
    have "(word_of_nat (unat (interestRetryNumber env)) :: 32 word) = interestRetryNumber env"
      by simp
    then show ?thesis using k by simp
  qed
  have f': "findAdjacent (m_adjacencyList ?sk) (getPrefix_neg interestName 3)
              = Some (a\<lparr>interestTimedOutNo := k\<rparr>)"
    using f assms(5) by simp
  let ?s' = "s\<lparr>m_adjacencyList :=
                  setStatusOfNeighbor (incrementTimedOutInterestCount adl nb) nb STATUS_INACTIVE,
                effects := effects s @ (E @
                  [OnTimeout nb (interestRetryNumber env),
                   OnNeighborStatusChanged nb STATUS_INACTIVE,
                   if hyperbolicState env = HYPERBOLIC_STATE_ON
                   then ScheduleRoutingTableCalculation else ScheduleAdjLsaBuild])\<rparr>"
  have step: "processInterestTimedOut env interestName ?sk = Inr ?s'"
    using n assms(2,5)
    by (simp add: processInterestTimedOut_known [OF assms(4) f'] Let_def)
  have "replicate ?R ?to = replicate k ?to @ [?to]"
    using k by (simp add: replicate_append_same)
  then have run: "run env (replicate ?R ?to) s = Inr ?s'"
    using r step by (simp add: run_append)
  have st: "getStatusOfNeighbor (m_adjacencyList ?s') nb = STATUS_INACTIVE"
    using f by (simp add: getStatusOfNeighbor_def findAdjacent_simps)
  have ne: "newEffects s ?s' = E @
                  [OnTimeout nb (interestRetryNumber env),
                   OnNeighborStatusChanged nb STATUS_INACTIVE,
                   if hyperbolicState env = HYPERBOLIC_STATE_ON
                   then ScheduleRoutingTableCalculation else ScheduleAdjLsaBuild]"
    by (simp add: newEffects_def)
  show "\<exists>s'. run env (replicate ?R ?to) s = Inr s'
        \<and> getStatusOfNeighbor (m_adjacencyList s') nb = STATUS_INACTIVE
        \<and> filter isStatusChange (newEffects s s') = [OnNeighborStatusChanged nb STATUS_INACTIVE]
        \<and> length (filter isReconvergence (newEffects s s')) = 1"
    using run st e by (intro exI [of _ ?s']) (simp add: ne)
next
  fix j assume "j < unat (interestRetryNumber env)"
  from timeouts_below_limit [OF assms(1) assms(3) assms(4) assms(5) this]
  obtain adl E where
    r: "run env (replicate j (ProcessInterestTimedOut interestName)) s
          = Inr (s\<lparr>m_adjacencyList := adl, effects := effects s @ E\<rparr>)"
    and f: "findAdjacent adl nb = Some (a\<lparr>interestTimedOutNo := j\<rparr>)"
    and e: "filter isStatusChange E = []" "filter isReconvergence E = []"
    by blast
  show "\<exists>sk. run env (replicate j (ProcessInterestTimedOut interestName)) s = Inr sk
            \<and> getStatusOfNeighbor (m_adjacencyList sk) nb = STATUS_ACTIVE
            \<and> getTimedOutInterestCount (unknownCount env) (m_adjacencyList sk) nb = j
            \<and> filter isStatusChange (newEffects s sk) = []
            \<and> filter isReconvergence (newEffects s sk) = []"
    using r f e assms(2)
    by (intro exI [of _ "s\<lparr>m_adjacencyList := adl, effects := effects s @ E\<rparr>"])
       (simp add: getStatusOfNeighbor_def getTimedOutInterestCount_def newEffects_def)
next
  fix t :: HelloState
  assume "(word_of_nat (getTimedOutInterestCount (unknownCount env)
                 (incrementTimedOutInterestCount (m_adjacencyList t) nb) nb) :: 32 word)
               < interestRetryNumber env"
  then have lt: "(word_of_nat (getTimedOutInterestCount (unknownCount env)
            (incrementTimedOutInterestCount (m_adjacencyList t) (getPrefix_neg interestName 3))
            (getPrefix_neg interestName 3)) :: 32 word) < interestRetryNumber env"
    using assms(5) by simp
  show "\<exists>t'. processInterestTimedOut env interestName t = Inr t'
            \<and> newEffects t t' =
                [OnTimeout nb (word_of_nat (getTimedOutInterestCount (unknownCount env)
                                  (m_adjacencyList t') nb)),
                 OnInterestSent nb,
                 FaceExpressInterest (nb @ [NLSR_COMPONENT, INFO_COMPONENT, routerPrefixWire env])
                   (interestResendTime env),
                 HpIncrementSignal SENT_HELLO_INTEREST]
            \<and> (\<forall>x. getStatusOfNeighbor (m_adjacencyList t') x
                     = getStatusOfNeighbor (m_adjacencyList t) x)"
    using assms(5)
    by (simp add: processInterestTimedOut_reissue [OF assms(4) lt] Let_def newEffects_def)
qed

theorem processInterestTimedOut_retry_limit_witness:
  "findAdjacent (m_adjacencyList (state0 7 STATUS_ACTIVE)) [''site'', ''r1'']
      = Some (adj1 7 STATUS_ACTIVE)
   \<and> status (adj1 7 STATUS_ACTIVE) = STATUS_ACTIVE
   \<and> interestTimedOutNo (adj1 7 STATUS_ACTIVE) = 0
   \<and> get_neg probe1 2 = Some INFO_COMPONENT
   \<and> getPrefix_neg probe1 3 = [''site'', ''r1'']
   \<and> 0 < unat (interestRetryNumber env0)
   \<and> (\<exists>s'. run env0 (replicate 3 (ProcessInterestTimedOut probe1)) (state0 7 STATUS_ACTIVE) = Inr s'
          \<and> getStatusOfNeighbor (m_adjacencyList s') [''site'', ''r1''] = STATUS_INACTIVE
          \<and> filter isStatusChange (newEffects (state0 7 STATUS_ACTIVE) s')
               = [OnNeighborStatusChanged [''site'', ''r1''] STATUS_INACTIVE]
          \<and> length (filter isReconvergence (newEffects (state0 7 STATUS_ACTIVE) s')) = 1)
   \<and> (2 < unat (interestRetryNumber env0)
        \<and> (\<exists>sk. run env0 (replicate 2 (ProcessInterestTimedOut probe1)) (state0 7 STATUS_ACTIVE) = Inr sk
              \<and> getStatusOfNeighbor (m_adjacencyList sk) [''site'', ''r1''] = STATUS_ACTIVE
              \<and> filter isStatusChange (newEffects (state0 7 STATUS_ACTIVE) sk) = []))
   \<and> ((word_of_nat (getTimedOutInterestCount (unknownCount env0)
          (incrementTimedOutInterestCount (m_adjacencyList (state0 7 STATUS_ACTIVE)) [''site'', ''r1''])
          [''site'', ''r1'']) :: 32 word) < interestRetryNumber env0
        \<and> (\<exists>t'. processInterestTimedOut env0 probe1 (state0 7 STATUS_ACTIVE) = Inr t'
              \<and> newEffects (state0 7 STATUS_ACTIVE) t' =
                  [OnTimeout [''site'', ''r1''] 1, OnInterestSent [''site'', ''r1''],
                   FaceExpressInterest probe1 15, HpIncrementSignal SENT_HELLO_INTEREST]))"
proof -
  have h: "findAdjacent (m_adjacencyList (state0 7 STATUS_ACTIVE)) [''site'', ''r1'']
             = Some (adj1 7 STATUS_ACTIVE)"
    "status (adj1 7 STATUS_ACTIVE) = STATUS_ACTIVE"
    "interestTimedOutNo (adj1 7 STATUS_ACTIVE) = 0"
    "get_neg probe1 2 = Some INFO_COMPONENT"
    "getPrefix_neg probe1 3 = [''site'', ''r1'']"
    "0 < unat (interestRetryNumber env0)"
    by (simp_all add: state0_def adj1_def probe1_def get_neg_def getPrefix_neg_def
        INFO_COMPONENT_def env0_def)
  have r: "unat (interestRetryNumber env0) = 3" by (simp add: env0_def)
  have lt: "(word_of_nat (getTimedOutInterestCount (unknownCount env0)
          (incrementTimedOutInterestCount (m_adjacencyList (state0 7 STATUS_ACTIVE)) [''site'', ''r1''])
          [''site'', ''r1'']) :: 32 word) < interestRetryNumber env0"
    by (simp add: getTimedOutInterestCount_def incrementTimedOutInterestCount_def state0_def
        adj1_def env0_def)
  have c: "(word_of_nat (getTimedOutInterestCount (unknownCount env0)
          (incrementTimedOutInterestCount (m_adjacencyList (state0 7 STATUS_ACTIVE)) [''site'', ''r1''])
          [''site'', ''r1'']) :: 32 word) = 1"
    by (simp add: getTimedOutInterestCount_def incrementTimedOutInterestCount_def state0_def
        adj1_def env0_def)
  note T = processInterestTimedOut_retry_limit [OF h, unfolded r]
  note T1 = conjunct1 [OF T]
  note T2 = conjunct1 [OF conjunct2 [OF T]]
  note T3 = conjunct2 [OF conjunct2 [OF T]]
  from T1 have A: "\<exists>s'. run env0 (replicate 3 (ProcessInterestTimedOut probe1)) (state0 7 STATUS_ACTIVE) = Inr s'
          \<and> getStatusOfNeighbor (m_adjacencyList s') [''site'', ''r1''] = STATUS_INACTIVE
          \<and> filter isStatusChange (newEffects (state0 7 STATUS_ACTIVE) s')
               = [OnNeighborStatusChanged [''site'', ''r1''] STATUS_INACTIVE]
          \<and> length (filter isReconvergence (newEffects (state0 7 STATUS_ACTIVE) s')) = 1"
    .
  from T2 have "\<forall>k<3. \<exists>sk. run env0 (replicate k (ProcessInterestTimedOut probe1)) (state0 7 STATUS_ACTIVE) = Inr sk
            \<and> getStatusOfNeighbor (m_adjacencyList sk) [''site'', ''r1''] = STATUS_ACTIVE
            \<and> getTimedOutInterestCount (unknownCount env0) (m_adjacencyList sk) [''site'', ''r1''] = k
            \<and> filter isStatusChange (newEffects (state0 7 STATUS_ACTIVE) sk) = []
            \<and> filter isReconvergence (newEffects (state0 7 STATUS_ACTIVE) sk) = []"
    .
  from this [rule_format, of 2] have B: "\<exists>sk. run env0 (replicate 2 (ProcessInterestTimedOut probe1)) (state0 7 STATUS_ACTIVE) = Inr sk
              \<and> getStatusOfNeighbor (m_adjacencyList sk) [''site'', ''r1''] = STATUS_ACTIVE
              \<and> filter isStatusChange (newEffects (state0 7 STATUS_ACTIVE) sk) = []"
    by auto
  from T3 [rule_format, OF lt] obtain t' where
    t: "processInterestTimedOut env0 probe1 (state0 7 STATUS_ACTIVE) = Inr t'"
    and n: "newEffects (state0 7 STATUS_ACTIVE) t' =
                [OnTimeout [''site'', ''r1''] (word_of_nat (getTimedOutInterestCount (unknownCount env0)
                                  (m_adjacencyList t') [''site'', ''r1''])),
                 OnInterestSent [''site'', ''r1''],
                 FaceExpressInterest ([''site'', ''r1''] @ [NLSR_COMPONENT, INFO_COMPONENT, routerPrefixWire env0])
                   (interestResendTime env0),
                 HpIncrementSignal SENT_HELLO_INTEREST]"
    by blast
  have adl: "m_adjacencyList t' =
      incrementTimedOutInterestCount (m_adjacencyList (state0 7 STATUS_ACTIVE)) [''site'', ''r1'']"
  proof -
    have lt': "(word_of_nat (getTimedOutInterestCount (unknownCount env0)
          (incrementTimedOutInterestCount (m_adjacencyList (state0 7 STATUS_ACTIVE))
             (getPrefix_neg probe1 3))
          (getPrefix_neg probe1 3)) :: 32 word) < interestRetryNumber env0"
      using lt h(5) by simp
    have "m_adjacencyList (projr (processInterestTimedOut env0 probe1 (state0 7 STATUS_ACTIVE))) =
      incrementTimedOutInterestCount (m_adjacencyList (state0 7 STATUS_ACTIVE)) [''site'', ''r1'']"
      using h(5) by (simp add: processInterestTimedOut_reissue [OF h(4) lt'] Let_def)
    then show ?thesis using t by simp
  qed
  have C: "\<exists>t'. processInterestTimedOut env0 probe1 (state0 7 STATUS_ACTIVE) = Inr t'
              \<and> newEffects (state0 7 STATUS_ACTIVE) t' =
                  [OnTimeout [''site'', ''r1''] 1, OnInterestSent [''site'', ''r1''],
                   FaceExpressInterest probe1 15, HpIncrementSignal SENT_HELLO_INTEREST]"
    using t n c
    by (simp add: adl probe1_def NLSR_COMPONENT_def INFO_COMPONENT_def env0_def)
  show ?thesis using h A B C lt r by simp
qed

lemma statusChanges_append:
  "statusChanges nb (xs @ ys) = statusChanges nb xs @ statusChanges nb ys"
  by (induction nb xs rule: statusChanges.induct) auto

lemma alternates_snoc:
  "alternates xs \<Longrightarrow> (xs \<noteq> [] \<longrightarrow> last xs \<noteq> x) \<Longrightarrow> alternates (xs @ [x])"
  by (induction xs rule: alternates.induct) auto

lemma getStatus_setCount [simp]:
  "getStatusOfNeighbor (setTimedOutInterestCount adl n k) x = getStatusOfNeighbor adl x"
  by (cases "findAdjacent adl n") (auto simp: getStatusOfNeighbor_def findAdjacent_simps)

lemma getStatus_setStatus:
  "getStatusOfNeighbor (setStatusOfNeighbor adl n st) x =
     (if x = n \<and> isNeighbor adl n then st else getStatusOfNeighbor adl x)"
  by (cases "findAdjacent adl n")
     (auto simp: getStatusOfNeighbor_def findAdjacent_simps isNeighbor_def)

lemma statusStepI_quiet:
  "effects s' = effects s @ E \<Longrightarrow> statusChanges nb E = [] \<Longrightarrow>
   getStatusOfNeighbor (m_adjacencyList s') nb = getStatusOfNeighbor (m_adjacencyList s) nb \<Longrightarrow>
   statusStep nb s s'"
  by (simp add: statusStep_def newEffects_def)

lemma statusStepI_change:
  "effects s' = effects s @ E \<Longrightarrow>
   statusChanges nb E = [getStatusOfNeighbor (m_adjacencyList s') nb] \<Longrightarrow>
   getStatusOfNeighbor (m_adjacencyList s') nb \<noteq> getStatusOfNeighbor (m_adjacencyList s) nb \<Longrightarrow>
   statusStep nb s s'"
  by (simp add: statusStep_def newEffects_def)

lemma statusStepD:
  assumes "statusStep nb s s'"
  shows "\<exists>E. effects s' = effects s @ E
        \<and> ((statusChanges nb E = []
             \<and> getStatusOfNeighbor (m_adjacencyList s') nb = getStatusOfNeighbor (m_adjacencyList s) nb)
           \<or> (statusChanges nb E = [getStatusOfNeighbor (m_adjacencyList s') nb]
             \<and> getStatusOfNeighbor (m_adjacencyList s') nb \<noteq> getStatusOfNeighbor (m_adjacencyList s) nb))"
proof -
  have "effects s' = effects s @ newEffects s s'"
    using assms append_take_drop_id [of "length (effects s)" "effects s'"]
    by (simp add: statusStep_def newEffects_def)
  then show ?thesis using assms by (auto simp: statusStep_def Let_def)
qed

lemma expressInterest_shape:
  "expressInterest n seconds s =
     s\<lparr>effects := effects s @ [OnInterestSent (getPrefix_neg n 3),
        FaceExpressInterest n seconds, HpIncrementSignal SENT_HELLO_INTEREST]\<rparr>"
  by (simp add: expressInterest_def Let_def emit_def)

lemma statusStep_sendHelloInterest: "statusStep nb s (sendHelloInterest env n s)"
proof (cases "findAdjacent (m_adjacencyList s) n")
  case None
  then show ?thesis
    by (intro statusStepI_quiet [where E = "[]"]) (simp_all add: sendHelloInterest_def)
next
  case (Some a)
  show ?thesis
  proof (cases "faceId a = 0")
    case True
    with Some show ?thesis
      by (intro statusStepI_quiet [where E = "[]"])
         (simp_all add: sendHelloInterest_def schedule_def)
  next
    case False
    with Some show ?thesis
      by (intro statusStepI_quiet [where E = "[OnInterestSent
             (getPrefix_neg (adjName a @ [NLSR_COMPONENT, INFO_COMPONENT, routerPrefixWire env]) 3),
            FaceExpressInterest (adjName a @ [NLSR_COMPONENT, INFO_COMPONENT, routerPrefixWire env])
              (interestResendTime env),
            HpIncrementSignal SENT_HELLO_INTEREST]"])
         (simp_all add: sendHelloInterest_def schedule_def expressInterest_shape)
  qed
qed

lemma statusStep_processInterest:
  assumes "processInterest env n v s = Inr s'"
  shows "statusStep nb s s'"
proof -
  have "\<exists>E. effects s' = effects s @ E \<and> statusChanges nb E = []
           \<and> m_adjacencyList s' = m_adjacencyList s"
    using assms
    by (auto simp: processInterest_def Let_def expressInterest_shape emit_def
             split: option.splits if_splits)
  then show ?thesis by (auto intro: statusStepI_quiet)
qed

lemma statusStep_processInterestTimedOut:
  assumes "processInterestTimedOut env n s = Inr s'"
  shows "statusStep nb s s'"
proof -
  from assms obtain info where info: "get_neg n 2 = Some info"
    by (auto simp: processInterestTimedOut_def split: option.splits)
  let ?nbr = "getPrefix_neg n 3"
  let ?adl = "incrementTimedOutInterestCount (m_adjacencyList s) ?nbr"
  let ?n = "(word_of_nat (getTimedOutInterestCount (unknownCount env) ?adl ?nbr) :: 32 word)"
  consider (other) "info \<noteq> INFO_COMPONENT"
    | (reissue) "info = INFO_COMPONENT" "?n < interestRetryNumber env"
    | (down) "info = INFO_COMPONENT" "\<not> ?n < interestRetryNumber env"
        "getStatusOfNeighbor (m_adjacencyList s) ?nbr = STATUS_ACTIVE"
    | (idle) "info = INFO_COMPONENT" "\<not> ?n < interestRetryNumber env"
        "getStatusOfNeighbor (m_adjacencyList s) ?nbr \<noteq> STATUS_ACTIVE"
    by blast
  then show ?thesis
  proof cases
    case other
    with assms info have "s' = s" by (simp add: processInterestTimedOut_def)
    then show ?thesis by (intro statusStepI_quiet [where E = "[]"]) simp_all
  next
    case reissue
    with assms info have "s' = s\<lparr>m_adjacencyList := ?adl,
        effects := effects s @ [OnTimeout ?nbr ?n, OnInterestSent ?nbr,
          FaceExpressInterest (?nbr @ [NLSR_COMPONENT, INFO_COMPONENT, routerPrefixWire env])
            (interestResendTime env),
          HpIncrementSignal SENT_HELLO_INTEREST]\<rparr>"
      by (simp add: processInterestTimedOut_def Let_def expressInterest_effects emit_def)
    then show ?thesis
      by (intro statusStepI_quiet [where E = "[OnTimeout ?nbr ?n, OnInterestSent ?nbr,
          FaceExpressInterest (?nbr @ [NLSR_COMPONENT, INFO_COMPONENT, routerPrefixWire env])
            (interestResendTime env),
          HpIncrementSignal SENT_HELLO_INTEREST]"]) simp_all
  next
    case idle
    with assms info have "s' = s\<lparr>m_adjacencyList := ?adl,
        effects := effects s @ [OnTimeout ?nbr ?n]\<rparr>"
      by (simp add: processInterestTimedOut_def Let_def emit_def)
    then show ?thesis
      by (intro statusStepI_quiet [where E = "[OnTimeout ?nbr ?n]"]) simp_all
  next
    case down
    let ?E = "[OnTimeout ?nbr ?n, OnNeighborStatusChanged ?nbr STATUS_INACTIVE,
               if hyperbolicState env = HYPERBOLIC_STATE_ON
               then ScheduleRoutingTableCalculation else ScheduleAdjLsaBuild]"
    from down assms info have s': "s' = s\<lparr>m_adjacencyList :=
          setStatusOfNeighbor ?adl ?nbr STATUS_INACTIVE, effects := effects s @ ?E\<rparr>"
      by (cases "hyperbolicState env = HYPERBOLIC_STATE_ON")
         (simp_all add: processInterestTimedOut_def Let_def emit_def reconverge_def)
    from down(3) have known: "isNeighbor (m_adjacencyList s) ?nbr"
      by (auto simp: getStatusOfNeighbor_def isNeighbor_def split: option.splits)
    then have known': "isNeighbor ?adl ?nbr"
      by (auto simp: isNeighbor_def findAdjacent_simps)
    show ?thesis
    proof (cases "nb = ?nbr")
      case True
      have "effects s' = effects s @ ?E" using s' by simp
      moreover have "statusChanges nb ?E = [STATUS_INACTIVE]" using True by simp
      moreover have "getStatusOfNeighbor (m_adjacencyList s') nb = STATUS_INACTIVE"
        using s' True known' by (simp add: getStatus_setStatus)
      moreover have "getStatusOfNeighbor (m_adjacencyList s) nb = STATUS_ACTIVE"
        using True down(3) by simp
      ultimately show ?thesis by (intro statusStepI_change [where E = ?E]) simp_all
    next
      case False
      then show ?thesis using s'
        by (intro statusStepI_quiet [where E = ?E]) (simp_all add: getStatus_setStatus)
    qed
  qed
qed

lemma statusStep_onContentValidated:
  assumes "onContentValidated env n s = Inr s'"
  shows "statusStep nb s s'"
proof -
  from assms obtain info where info: "get_neg n 3 = Some info"
    by (auto simp: onContentValidated_def split: option.splits)
  show ?thesis
  proof (cases "info = INFO_COMPONENT")
    case False
    with assms info have "s' = s\<lparr>effects := effects s @ [HpIncrementSignal RCV_HELLO_DATA]\<rparr>"
      by (simp add: onContentValidated_def emit_def)
    then show ?thesis
      by (intro statusStepI_quiet [where E = "[HpIncrementSignal RCV_HELLO_DATA]"]) simp_all
  next
    case True
    let ?nbr = "getPrefix_neg n 4"
    let ?changed = "isNeighbor (m_adjacencyList s) ?nbr
                    \<and> getStatusOfNeighbor (m_adjacencyList s) ?nbr = STATUS_INACTIVE"
    let ?E = "[OnDataReceived ?nbr]
                  @ (if ?changed
                     then [OnNeighborStatusChanged ?nbr STATUS_ACTIVE,
                           if hyperbolicState env = HYPERBOLIC_STATE_ON
                           then ScheduleRoutingTableCalculation else ScheduleAdjLsaBuild,
                           OnInitialHelloDataValidated ?nbr]
                     else [])
                  @ [HpIncrementSignal RCV_HELLO_DATA]"
    from True info have i: "get_neg n 3 = Some INFO_COMPONENT" by simp
    have s': "s' = s\<lparr>m_adjacencyList := setTimedOutInterestCount
                      (setStatusOfNeighbor (m_adjacencyList s) ?nbr STATUS_ACTIVE) ?nbr 0,
                    effects := effects s @ ?E\<rparr>"
      using assms by (simp add: onContentValidated_info [OF i] Let_def)
    show ?thesis
    proof (cases "nb = ?nbr \<and> ?changed")
      case True
      have "effects s' = effects s @ ?E" using s' by simp
      moreover have "statusChanges nb ?E = [STATUS_ACTIVE]" using True by simp
      moreover have "getStatusOfNeighbor (m_adjacencyList s') nb = STATUS_ACTIVE"
        using s' True by (simp add: getStatus_setStatus)
      moreover have "getStatusOfNeighbor (m_adjacencyList s) nb = STATUS_INACTIVE"
        using True by simp
      ultimately show ?thesis by (intro statusStepI_change [where E = ?E]) simp_all
    next
      case False
      have "effects s' = effects s @ ?E" using s' by simp
      moreover have "statusChanges nb ?E = []" using False by auto
      moreover have "getStatusOfNeighbor (m_adjacencyList s') nb
                       = getStatusOfNeighbor (m_adjacencyList s) nb"
      proof (cases "nb = ?nbr \<and> isNeighbor (m_adjacencyList s) ?nbr")
        case True
        with False have "getStatusOfNeighbor (m_adjacencyList s) nb = STATUS_ACTIVE"
          by (cases "getStatusOfNeighbor (m_adjacencyList s) nb") auto
        with True show ?thesis using s' by (simp add: getStatus_setStatus)
      next
        case False
        then show ?thesis using s' by (auto simp add: getStatus_setStatus)
      qed
      ultimately show ?thesis by (rule statusStepI_quiet)
    qed
  qed
qed

lemma statusStep_step:
  assumes "step env i s = Inr s'"
  shows "statusStep nb s s'"
proof (cases i)
  case (SendHelloInterest n)
  with assms show ?thesis using statusStep_sendHelloInterest by auto
next
  case (ProcessInterest n v)
  with assms show ?thesis using statusStep_processInterest by auto
next
  case (ProcessInterestTimedOut n)
  with assms show ?thesis using statusStep_processInterestTimedOut by auto
next
  case (Nack n seconds)
  with assms have "s' = onNack n seconds s" by simp
  then show ?thesis
    by (intro statusStepI_quiet [where E = "[]"]) (simp_all add: onNack_def schedule_def)
next
  case (ContentValidated n)
  with assms show ?thesis using statusStep_onContentValidated by auto
next
  case (ContentValidationFailed n)
  with assms have "s' = s" by (simp add: onContentValidationFailed_def)
  then show ?thesis by (intro statusStepI_quiet [where E = "[]"]) simp_all
next
  case (Advance d)
  with assms have "s' = s\<lparr>clock := clock s + d\<rparr>" by auto
  then show ?thesis by (intro statusStepI_quiet [where E = "[]"]) simp_all
qed

lemma run_alternates:
  assumes "run env inputs s = Inr s'"
    and "alternates L"
    and "L \<noteq> [] \<longrightarrow> last L = getStatusOfNeighbor (m_adjacencyList s) nb"
  shows "\<exists>E. effects s' = effects s @ E
           \<and> alternates (L @ statusChanges nb E)
           \<and> (L @ statusChanges nb E \<noteq> [] \<longrightarrow>
                last (L @ statusChanges nb E) = getStatusOfNeighbor (m_adjacencyList s') nb)"
  using assms
proof (induction inputs arbitrary: s L)
  case Nil
  then show ?case by (intro exI [of _ "[]"]) simp
next
  case (Cons i inputs)
  from Cons.prems(1) obtain s1 where s1: "step env i s = Inr s1"
    and rest: "run env inputs s1 = Inr s'"
    by (auto split: sum.splits)
  from statusStepD [OF statusStep_step [OF s1, of nb]] obtain E1 where e1: "effects s1 = effects s @ E1"
    and c: "(statusChanges nb E1 = []
             \<and> getStatusOfNeighbor (m_adjacencyList s1) nb = getStatusOfNeighbor (m_adjacencyList s) nb)
           \<or> (statusChanges nb E1 = [getStatusOfNeighbor (m_adjacencyList s1) nb]
             \<and> getStatusOfNeighbor (m_adjacencyList s1) nb \<noteq> getStatusOfNeighbor (m_adjacencyList s) nb)"
    by blast
  let ?L1 = "L @ statusChanges nb E1"
  have a1: "alternates ?L1"
  proof (cases "statusChanges nb E1 = []")
    case True
    then show ?thesis using Cons.prems(2) by simp
  next
    case False
    with c have x: "statusChanges nb E1 = [getStatusOfNeighbor (m_adjacencyList s1) nb]"
      and d: "getStatusOfNeighbor (m_adjacencyList s1) nb \<noteq> getStatusOfNeighbor (m_adjacencyList s) nb"
      by auto
    have "L \<noteq> [] \<longrightarrow> last L \<noteq> getStatusOfNeighbor (m_adjacencyList s1) nb"
      using d Cons.prems(3) by auto
    with Cons.prems(2) show ?thesis unfolding x by (rule alternates_snoc)
  qed
  have l1: "?L1 \<noteq> [] \<longrightarrow> last ?L1 = getStatusOfNeighbor (m_adjacencyList s1) nb"
    using c Cons.prems(3) by auto
  from Cons.IH [OF rest a1 l1] obtain E2 where e2: "effects s' = effects s1 @ E2"
    and a2: "alternates (?L1 @ statusChanges nb E2)"
    and l2: "?L1 @ statusChanges nb E2 \<noteq> [] \<longrightarrow>
                last (?L1 @ statusChanges nb E2) = getStatusOfNeighbor (m_adjacencyList s') nb"
    by blast
  show ?case
    using e1 e2 a2 l2
    by (intro exI [of _ "E1 @ E2"]) (simp add: statusChanges_append)
qed

text \<open>
  C6. In every execution, from any state, the \<open>NeighborStatusChanged\<close> events emitted
  for one neighbour alternate: no two consecutive ones report the same status.
\<close>

theorem status_changes_alternate:
  assumes "run env inputs s = Inr s'"
  shows "alternates (statusChanges nb (newEffects s s'))"
proof -
  from run_alternates [OF assms, of "[]" nb]
  obtain E where "effects s' = effects s @ E" and "alternates (statusChanges nb E)"
    by auto
  then show ?thesis by (simp add: newEffects_def)
qed

lemma trace1_runs:
  "\<exists>s'. run env0 trace1 (state0 7 STATUS_INACTIVE) = Inr s'
       \<and> statusChanges [''site'', ''r1''] (newEffects (state0 7 STATUS_INACTIVE) s')
           = [STATUS_ACTIVE, STATUS_INACTIVE, STATUS_ACTIVE]"
  by (simp add: trace1_def state0_def adj1_def env0_def data1_def probe1_def
      sendHelloInterest_def expressInterest_def emit_def schedule_def
      onContentValidated_def processInterestTimedOut_def reconverge_def
      get_neg_def getPrefix_neg_def INFO_COMPONENT_def NLSR_COMPONENT_def
      getStatusOfNeighbor_def setStatusOfNeighbor_def setTimedOutInterestCount_def
      incrementTimedOutInterestCount_def getTimedOutInterestCount_def
      newEffects_def Let_def)

theorem status_changes_alternate_witness:
  "\<exists>s'. run env0 trace1 (state0 7 STATUS_INACTIVE) = Inr s'
       \<and> statusChanges [''site'', ''r1''] (newEffects (state0 7 STATUS_INACTIVE) s')
           = [STATUS_ACTIVE, STATUS_INACTIVE, STATUS_ACTIVE]
       \<and> alternates (statusChanges [''site'', ''r1''] (newEffects (state0 7 STATUS_INACTIVE) s'))"
proof -
  from trace1_runs obtain s' where
    r: "run env0 trace1 (state0 7 STATUS_INACTIVE) = Inr s'"
    and c: "statusChanges [''site'', ''r1''] (newEffects (state0 7 STATUS_INACTIVE) s')
           = [STATUS_ACTIVE, STATUS_INACTIVE, STATUS_ACTIVE]"
    by blast
  from status_changes_alternate [OF r, of "[''site'', ''r1'']"] r c show ?thesis by blast
qed

end
